theory Spec2Isabelle
  imports Main "HOL-Library.Multiset"
begin

section \<open>Values exchanged with the backend\<close>

text \<open>
  The handlers of \<^verbatim>\<open>file.actions.ts\<close> and \<^verbatim>\<open>user.actions.ts\<close> call a remote
  backend (account service, document database, storage bucket) and shape what comes back.
  A rejected promise or a \<^verbatim>\<open>throw\<close> is a value \<open>Inl e\<close> of the result type
  \<open>error + 'a\<close>; a resolved promise is \<open>Inr v\<close>.

  The backend is not part of the repository. Each handler is given a record with the outcome
  of every call it can make (an outcome that depends on the request is a function of it),
  and returns its result together with the trace of the calls it made. The clients made by
  \<^verbatim>\<open>createAdminClient\<close> and \<^verbatim>\<open>createSessionClient\<close> (\<^verbatim>\<open>@/lib/appwrite\<close>) are such
  outcomes too.
\<close>

datatype error =
    BackendError string   \<comment> \<open>an exception raised by a backend call\<close>
  | JsError string        \<comment> \<open>\<^verbatim>\<open>new Error(message)\<close> thrown by the handler itself\<close>
  | TypeError string      \<comment> \<open>raised by the language runtime\<close>
  | SyntaxError string    \<comment> \<open>raised by \<^verbatim>\<open>JSON.parse\<close>\<close>
  | NextRedirect string   \<comment> \<open>what \<^verbatim>\<open>redirect(path)\<close> of the framework throws\<close>

text \<open>Untyped data (\<^verbatim>\<open>any\<close>, \<^verbatim>\<open>Record<string, any>\<close>) is a JSON value; an object is
  an association list, a \<^verbatim>\<open>number\<close> is an integer (sizes are byte counts).\<close>

datatype json =
    JNull
  | JBool bool
  | JNum int
  | JStr string
  | JArr "json list"
  | JObj "(string \<times> json) list"

type_synonym document = "(string \<times> json) list"

text \<open>What \<^verbatim>\<open>databases.listDocuments\<close> resolves to.\<close>

record 'd document_list =
  total :: int
  documents :: "'d list"

text \<open>The \<^verbatim>\<open>Query\<close> builders of the SDK are kept symbolic. A builder takes either one
  value or an array of values, as the call site writes it.\<close>

datatype qvalue = Single string | Multi "string list"

datatype query =
    QEqual string qvalue
  | QContains string qvalue
  | QOr "query list"
  | QLimit int
  | QOrderAsc string
  | QOrderDesc string

text \<open>A call to the backend or to the framework, as the handlers issue it, paired in a
  trace with whether it resolved. \<^verbatim>\<open>storage.createFile\<close> is called with a fresh
  \<^verbatim>\<open>ID.unique()\<close>, so its event carries the \<^verbatim>\<open>$id\<close> of the object the backend
  reports (\<open>None\<close> when the call rejected). An assignment to \<^verbatim>\<open>ownerMap\<close> in
  \<^verbatim>\<open>getFiles\<close> is traced with the value assigned. Console output is not traced.\<close>

datatype event =
    StorageCreateFile "string option"
  | StorageDeleteFile string bool              \<comment> \<open>object id\<close>
  | ListAttributes string bool                 \<comment> \<open>collection\<close>
  | CreateStringAttribute string string bool   \<comment> \<open>collection, key\<close>
  | CreateDocument string document bool        \<comment> \<open>collection, payload\<close>
  | ListDocuments string "query list" bool      \<comment> \<open>collection, queries\<close>
  | GetDocument string string bool             \<comment> \<open>collection, document id\<close>
  | OwnerMapSet string "document option"       \<comment> \<open>\<^verbatim>\<open>ownerMap[id] = value\<close>, \<open>None\<close> for \<^verbatim>\<open>undefined\<close>\<close>
  | CreateEmailToken string bool               \<comment> \<open>email\<close>
  | AccountGet bool
  | DeleteSession string bool
  | CookieDelete string
  | RevalidatePath string
  | Redirect string

text \<open>\<^verbatim>\<open>handleError\<close> logs and throws its argument.\<close>

definition handleError :: "error \<Rightarrow> error + 'a" where
  "handleError e = Inl e"

text \<open>Modelled from the spec: \<^verbatim>\<open>parseStringify\<close> of \<^verbatim>\<open>@/lib/utils\<close> is not among the
  sources. The handlers shape the returned data and hand it to the page, so it is taken to
  be the JSON round trip its name says: it gives back the JSON value it is given, and on
  \<^verbatim>\<open>undefined\<close> (\<open>None\<close>) it throws, as \<^verbatim>\<open>JSON.parse\<close> does.\<close>

definition parseStringify :: "'a option \<Rightarrow> error + 'a" where
  "parseStringify v = (case v of None \<Rightarrow> Inl (SyntaxError ''JSON.parse'') | Some x \<Rightarrow> Inr x)"

text \<open>The objects in the storage bucket after a trace, from those before it: a resolved
  \<^verbatim>\<open>createFile\<close> adds its object, a resolved \<^verbatim>\<open>deleteFile\<close> removes it, a rejected
  call changes nothing.\<close>

fun bucket_step :: "string list \<Rightarrow> event \<Rightarrow> string list" where
  "bucket_step b (StorageCreateFile (Some i)) = i # b"
| "bucket_step b (StorageDeleteFile i True) = removeAll i b"
| "bucket_step b ev = b"

definition bucket_after :: "event list \<Rightarrow> string list \<Rightarrow> string list" where
  "bucket_after tr b = foldl bucket_step b tr"

section \<open>Queries\<close>

text \<open>\<^verbatim>\<open>String.prototype.split\<close> with a one-character separator: the pieces between
  the occurrences of the separator, the empty string giving one empty piece.\<close>

fun js_split :: "char \<Rightarrow> string \<Rightarrow> string list" where
  "js_split c [] = [[]]"
| "js_split c (x # xs) =
     (if x = c then [] # js_split c xs
      else (case js_split c xs of
              [] \<Rightarrow> [[x]]
            | p # ps \<Rightarrow> (x # p) # ps))"

text \<open>Array destructuring \<^verbatim>\<open>const [a, b] = arr\<close>: a missing position is
  \<^verbatim>\<open>undefined\<close>, here \<open>None\<close>.\<close>

fun js_index :: "'a list \<Rightarrow> nat \<Rightarrow> 'a option" where
  "js_index [] n = None"
| "js_index (x # xs) 0 = Some x"
| "js_index (x # xs) (Suc n) = js_index xs n"

text \<open>The fields of \<^verbatim>\<open>UserDocument\<close> that the handlers read.\<close>

record user_document =
  user_id :: string        \<comment> \<open>\<^verbatim>\<open>$id\<close>\<close>
  user_fullName :: string
  user_email :: string
  user_avatar :: string
  user_accountId :: string

text \<open>Truthiness of a string, and of an optional number (\<^verbatim>\<open>limit?: number\<close>):
  \<^verbatim>\<open>undefined\<close> and \<^verbatim>\<open>0\<close> are falsy.\<close>

definition truthy_str :: "string \<Rightarrow> bool" where
  "truthy_str s = (s \<noteq> [])"

definition truthy_num :: "int option \<Rightarrow> bool" where
  "truthy_num n = (case n of None \<Rightarrow> False | Some k \<Rightarrow> k \<noteq> 0)"

text \<open>The ordering clause of \<^verbatim>\<open>createQueries\<close>: \<^verbatim>\<open>sort.split("-")\<close>, the first piece
  the attribute, the second the direction.\<close>

definition sortClause :: "string \<Rightarrow> query" where
  "sortClause sortStr =
     (let parts = js_split (CHR ''-'') sortStr;
          sortBy = (case js_index parts 0 of None \<Rightarrow> [] | Some s \<Rightarrow> s);
          orderBy = js_index parts 1
      in if orderBy = Some ''asc'' then QOrderAsc sortBy else QOrderDesc sortBy)"

definition createQueries ::
  "user_document \<Rightarrow> string list \<Rightarrow> string \<Rightarrow> string \<Rightarrow> int option \<Rightarrow> query list" where
  "createQueries currentUser types searchText sortStr limit =
     (let orClauses = [QEqual ''owner'' (Multi [user_id currentUser])]
            @ (if truthy_str (user_email currentUser)
               then [QContains ''users'' (Multi [user_email currentUser])] else []);
          queries = [QOr orClauses];
          queries = queries @ (if length types > 0 then [QEqual ''type'' (Multi types)] else []);
          queries = queries @ (if truthy_str searchText
                               then [QContains ''name'' (Single searchText)] else []);
          queries = queries @ (case limit of
                                 None \<Rightarrow> []
                               | Some n \<Rightarrow> if truthy_num limit then [QLimit n] else []);
          queries = queries @ (if truthy_str sortStr then [sortClause sortStr] else [])
      in queries)"

text \<open>Classification of clauses, to count them in a query list.\<close>

fun is_order :: "query \<Rightarrow> bool" where
  "is_order (QOrderAsc a) = True"
| "is_order (QOrderDesc a) = True"
| "is_order q = False"

fun is_limit :: "query \<Rightarrow> bool" where
  "is_limit (QLimit n) = True"
| "is_limit q = False"

fun is_type_filter :: "query \<Rightarrow> bool" where
  "is_type_filter (QEqual a v) = (a = ''type'')"
| "is_type_filter q = False"

fun is_name_filter :: "query \<Rightarrow> bool" where
  "is_name_filter (QContains a v) = (a = ''name'')"
| "is_name_filter q = False"

section \<open>Upload\<close>

text \<open>What \<^verbatim>\<open>storage.createFile\<close> resolves to, as far as \<^verbatim>\<open>uploadFile\<close> reads it.\<close>

record bucket_file =
  bf_id :: string          \<comment> \<open>\<^verbatim>\<open>$id\<close>\<close>
  bf_name :: string
  bf_sizeOriginal :: int

text \<open>An attribute of a collection: \<^verbatim>\<open>key\<close> and \<^verbatim>\<open>$id\<close>, either of which may be
  missing (\<^verbatim>\<open>null\<close> or \<^verbatim>\<open>undefined\<close>).\<close>

record attribute =
  attr_key :: "string option"
  attr_id :: "string option"

text \<open>\<^verbatim>\<open>databases.listAttributes\<close> resolves to an object with an \<^verbatim>\<open>attributes\<close>
  array, to a bare array (older SDKs), or to something else.\<close>

datatype attrs_response =
    WithAttributes "attribute list"
  | BareArray "attribute list"
  | OtherShape

fun attrsArray :: "attrs_response \<Rightarrow> attribute list" where
  "attrsArray (WithAttributes as) = as"
| "attrsArray (BareArray as) = as"
| "attrsArray OtherShape = []"

text \<open>\<^verbatim>\<open>a.key ?? a.$id\<close>, then \<^verbatim>\<open>.filter(Boolean)\<close>: the empty string and a missing
  value are dropped.\<close>

definition keyOf :: "attribute \<Rightarrow> string option" where
  "keyOf a = (case attr_key a of Some k \<Rightarrow> Some k | None \<Rightarrow> attr_id a)"

definition truthy_opt :: "string option \<Rightarrow> bool" where
  "truthy_opt v = (case v of None \<Rightarrow> False | Some s \<Rightarrow> truthy_str s)"

definition existingKeys :: "attribute list \<Rightarrow> string list" where
  "existingKeys as = map the (filter truthy_opt (map keyOf as))"

fun pickKey :: "string list \<Rightarrow> string list \<Rightarrow> string option" where
  "pickKey keys [] = None"
| "pickKey keys (k # ks) = (if k \<in> set keys then Some k else pickKey keys ks)"

text \<open>Property assignment \<^verbatim>\<open>obj[k] = v\<close> on an object: an existing key keeps its
  place, a new one goes last.\<close>

fun set_field :: "string \<Rightarrow> json \<Rightarrow> document \<Rightarrow> document" where
  "set_field k v [] = [(k, v)]"
| "set_field k v (p # ps) = (if fst p = k then (k, v) # ps else p # set_field k v ps)"

text \<open>\<^verbatim>\<open>if (pickKey(...)) fileDocument[key] = value\<close>, for a fixed key and for the key
  that was picked.\<close>

definition assignIf :: "string list \<Rightarrow> string \<Rightarrow> json \<Rightarrow> document \<Rightarrow> document" where
  "assignIf keys k v d = (if truthy_opt (pickKey keys [k]) then set_field k v d else d)"

definition assignPicked :: "string option \<Rightarrow> json \<Rightarrow> document \<Rightarrow> document" where
  "assignPicked picked v d =
     (case picked of None \<Rightarrow> d | Some k \<Rightarrow> if truthy_str k then set_field k v d else d)"

definition accountCandidates :: "string list" where
  "accountCandidates = [''accountID'', ''accountId'', ''account_id'']"

definition bucketFileCandidates :: "string list" where
  "bucketFileCandidates =
     [''bucketFileId'', ''bucket_file_id'', ''bucketFile'', ''bucket_file'', ''bucketField'']"

text \<open>The fields \<^verbatim>\<open>uploadFile\<close> writes under their own name, in the order it writes them.\<close>

definition plainKeys :: "string list" where
  "plainKeys = [''name'', ''url'', ''type'', ''extension'', ''size'', ''owner'']"

text \<open>\<^verbatim>\<open>constructFileUrl\<close> and \<^verbatim>\<open>getFileType\<close> live in \<^verbatim>\<open>@/lib/utils\<close>; they are
  parameters here.\<close>

record utils =
  constructFileUrl :: "string \<Rightarrow> string"
  getFileType_type :: "string \<Rightarrow> string"
  getFileType_extension :: "string \<Rightarrow> string"

text \<open>The payload \<^verbatim>\<open>fileDocument\<close> that \<^verbatim>\<open>uploadFile\<close> builds from the listed
  attributes.\<close>

definition fileDocument ::
  "utils \<Rightarrow> attribute list \<Rightarrow> bucket_file \<Rightarrow> string \<Rightarrow> string \<Rightarrow> document" where
  "fileDocument u as bucketFile ownerId accountId =
     (let keys = existingKeys as;
          d = [];
          d = assignIf keys ''name'' (JStr (bf_name bucketFile)) d;
          d = assignIf keys ''url'' (JStr (constructFileUrl u (bf_id bucketFile))) d;
          d = assignIf keys ''type'' (JStr (getFileType_type u (bf_name bucketFile))) d;
          d = assignIf keys ''extension'' (JStr (getFileType_extension u (bf_name bucketFile))) d;
          d = assignIf keys ''size'' (JNum (bf_sizeOriginal bucketFile)) d;
          d = assignIf keys ''owner'' (JStr ownerId) d;
          accountKey = pickKey keys accountCandidates;
          d = assignPicked accountKey (JStr accountId) d;
          bucketFileKey = pickKey keys bucketFileCandidates;
          d = assignPicked bucketFileKey (JStr (bf_id bucketFile)) d;
          d = assignIf keys ''users'' (JArr []) d
      in d)"

text \<open>The outcome of every call \<^verbatim>\<open>uploadFile\<close> makes. \<^verbatim>\<open>createDocument\<close> answers
  to the payload it is given.\<close>

record upload_backend =
  up_createAdminClient :: "error + unit"
  up_createFile :: "error + bucket_file"
  up_listAttributes :: "error + attrs_response"
  up_createDocument :: "document \<Rightarrow> error + document"
  up_deleteFile :: "string \<Rightarrow> error + unit"

text \<open>The identifiers in \<^verbatim>\<open>appwriteConfig\<close> are configuration that is not among the
  sources; the two collections are told apart by a label.\<close>

definition filesCollection :: string where
  "filesCollection = ''files''"

definition usersCollection :: string where
  "usersCollection = ''users''"

text \<open>The \<^verbatim>\<open>.catch\<close> handler on \<^verbatim>\<open>createDocument\<close>: delete the bucket object, then
  \<^verbatim>\<open>handleError\<close>. A rejection of \<^verbatim>\<open>deleteFile\<close> leaves the handler before
  \<^verbatim>\<open>handleError\<close> is reached.\<close>

definition rollback ::
  "upload_backend \<Rightarrow> bucket_file \<Rightarrow> error \<Rightarrow> (error + document option) \<times> event list" where
  "rollback be bucketFile err =
     (case up_deleteFile be (bf_id bucketFile) of
        Inl e2 \<Rightarrow> (Inl e2, [StorageDeleteFile (bf_id bucketFile) False])
      | Inr u \<Rightarrow>
          (case (handleError err :: error + unit) of
             Inl e \<Rightarrow> (Inl e, [StorageDeleteFile (bf_id bucketFile) True])
           | Inr v \<Rightarrow> (Inr None, [StorageDeleteFile (bf_id bucketFile) True])))"

text \<open>\<^verbatim>\<open>createDocument(...).catch(...)\<close>: the new document, or what the handler
  leaves.\<close>

definition createFileDocument ::
  "upload_backend \<Rightarrow> bucket_file \<Rightarrow> document \<Rightarrow> (error + document option) \<times> event list" where
  "createFileDocument be bucketFile payload =
     (case up_createDocument be payload of
        Inr newFile \<Rightarrow> (Inr (Some newFile), [CreateDocument filesCollection payload True])
      | Inl err \<Rightarrow>
          (case rollback be bucketFile err of
             (r, tr) \<Rightarrow> (r, CreateDocument filesCollection payload False # tr)))"

text \<open>\<^verbatim>\<open>uploadFile\<close>: the result and the trace of calls. The outer \<^verbatim>\<open>catch\<close> hands
  every error to \<^verbatim>\<open>handleError\<close>, which throws it again.\<close>

definition uploadFile ::
  "utils \<Rightarrow> upload_backend \<Rightarrow> string \<Rightarrow> string \<Rightarrow> string \<Rightarrow> (error + document) \<times> event list" where
  "uploadFile u be ownerId accountId path =
     (case up_createAdminClient be of
        Inl e \<Rightarrow> (Inl e, [])
      | Inr c \<Rightarrow>
         (case up_createFile be of
            Inl e \<Rightarrow> (handleError e, [StorageCreateFile None])
          | Inr bucketFile \<Rightarrow>
             (case up_listAttributes be of
                Inl e \<Rightarrow> (handleError e,
                           [StorageCreateFile (Some (bf_id bucketFile)),
                            ListAttributes filesCollection False])
              | Inr attrsResp \<Rightarrow>
                 (let payload = fileDocument u (attrsArray attrsResp) bucketFile ownerId accountId;
                      tr = [StorageCreateFile (Some (bf_id bucketFile)),
                            ListAttributes filesCollection True]
                  in case createFileDocument be bucketFile payload of
                       (Inl e, tr') \<Rightarrow> (handleError e, tr @ tr')
                     | (Inr newFile, tr') \<Rightarrow>
                         (case parseStringify newFile of
                            Inl e \<Rightarrow> (handleError e, tr @ tr' @ [RevalidatePath path])
                          | Inr v \<Rightarrow> (Inr v, tr @ tr' @ [RevalidatePath path]))))))"

section \<open>Current user and sign-out\<close>

text \<open>The outcome of every call \<^verbatim>\<open>getCurrentUser\<close> makes; \<^verbatim>\<open>account.get\<close> resolves to
  an account, of which the \<^verbatim>\<open>$id\<close> is read.\<close>

record session_backend =
  sb_createSessionClient :: "error + unit"
  sb_accountGet :: "error + string"
  sb_listUsers :: "query list \<Rightarrow> error + user_document document_list"

text \<open>What \<^verbatim>\<open>getCurrentUser\<close> returns: a document, \<^verbatim>\<open>null\<close>, or \<^verbatim>\<open>undefined\<close> when
  the \<^verbatim>\<open>catch\<close> block ends without a \<^verbatim>\<open>return\<close>.\<close>

datatype current_user = Found user_document | Null | Undefined

text \<open>The body of the \<^verbatim>\<open>try\<close> block.\<close>

definition currentUserBody :: "session_backend \<Rightarrow> (error + current_user) \<times> event list" where
  "currentUserBody be =
     (case sb_createSessionClient be of
        Inl e \<Rightarrow> (Inl e, [])
      | Inr c \<Rightarrow>
         (case sb_accountGet be of
            Inl e \<Rightarrow> (Inl e, [AccountGet False])
          | Inr resultId \<Rightarrow>
             (let q = [QEqual ''accountId'' (Single resultId)] in
              case sb_listUsers be q of
                Inl e \<Rightarrow> (Inl e, [AccountGet True, ListDocuments usersCollection q False])
              | Inr user \<Rightarrow>
                 (let tr = [AccountGet True, ListDocuments usersCollection q True] in
                  if total user \<le> 0 then (Inr Null, tr)
                  else (case parseStringify (js_index (documents user) 0) of
                          Inl e \<Rightarrow> (Inl e, tr)
                        | Inr d \<Rightarrow> (Inr (Found d), tr))))))"

text \<open>\<^verbatim>\<open>getCurrentUser\<close>: the \<^verbatim>\<open>catch\<close> block logs the error and falls through.\<close>

definition getCurrentUser :: "session_backend \<Rightarrow> (error + current_user) \<times> event list" where
  "getCurrentUser be =
     (case currentUserBody be of
        (Inl e, tr) \<Rightarrow> (Inr Undefined, tr)
      | (Inr v, tr) \<Rightarrow> (Inr v, tr))"

record signout_backend =
  so_createSessionClient :: "error + unit"
  so_deleteSession :: "string \<Rightarrow> error + unit"

definition sessionCookie :: string where
  "sessionCookie = ''appwrite-session''"

text \<open>The \<^verbatim>\<open>try\<close> block of \<^verbatim>\<open>signOutUser\<close> with its \<^verbatim>\<open>catch\<close>.\<close>

definition signOutBody :: "signout_backend \<Rightarrow> (error + unit) \<times> event list" where
  "signOutBody be =
     (case so_deleteSession be ''current'' of
        Inl e \<Rightarrow> (handleError e, [DeleteSession ''current'' False])
      | Inr u \<Rightarrow> (Inr (), [DeleteSession ''current'' True, CookieDelete sessionCookie]))"

text \<open>\<^verbatim>\<open>signOutUser\<close>: the session client is made before the \<^verbatim>\<open>try\<close>; the
  \<^verbatim>\<open>finally\<close> block calls \<^verbatim>\<open>redirect\<close>, whose exception replaces whatever the
  \<^verbatim>\<open>try\<close> and \<^verbatim>\<open>catch\<close> blocks ended with.\<close>

definition signOutUser :: "signout_backend \<Rightarrow> (error + unit) \<times> event list" where
  "signOutUser be =
     (case so_createSessionClient be of
        Inl e \<Rightarrow> (Inl e, [])
      | Inr c \<Rightarrow>
         (case signOutBody be of
            (r, tr) \<Rightarrow> (Inl (NextRedirect ''/sign-in''), tr @ [Redirect ''/sign-in''])))"

text \<open>The cookies left after a trace.\<close>

fun cookie_step :: "string list \<Rightarrow> event \<Rightarrow> string list" where
  "cookie_step cs (CookieDelete n) = removeAll n cs"
| "cookie_step cs ev = cs"

definition cookies_after :: "event list \<Rightarrow> string list \<Rightarrow> string list" where
  "cookies_after tr cs = foldl cookie_step cs tr"

section \<open>Sign-up\<close>










section \<open>Listing files\<close>

text \<open>The names every object inherits from \<^verbatim>\<open>Object.prototype\<close> in the runtime as it
  starts: the functions, and the accessor \<^verbatim>\<open>__proto__\<close>. Both \<^verbatim>\<open>ownerMap\<close> in
  \<^verbatim>\<open>getFiles\<close> and \<^verbatim>\<open>totalSpace\<close> in \<^verbatim>\<open>getTotalSpaceUsed\<close> are plain objects
  indexed by a string of the data, so a read finds these names too.\<close>

definition objectPrototypeFunctions :: "string list" where
  "objectPrototypeFunctions =
     [''constructor'', ''__defineGetter__'', ''__defineSetter__'', ''hasOwnProperty'',
      ''__lookupGetter__'', ''__lookupSetter__'', ''isPrototypeOf'', ''propertyIsEnumerable'',
      ''toString'', ''valueOf'', ''toLocaleString'']"

definition protoName :: string where
  "protoName = ''__proto__''"

text \<open>The \<^verbatim>\<open>owner\<close> of a listed file by what \<^verbatim>\<open>typeof\<close> tells of it: a string, an
  object (with its \<^verbatim>\<open>$id\<close>, which \<^verbatim>\<open>Models.Document\<close> types as a string, if it has one,
  and its other properties), \<^verbatim>\<open>null\<close>, a boolean, a number, or an array. A listed file
  is its owner, if it has the property, and its other properties.\<close>

datatype owner_value =
    OwnerString string
  | OwnerObject "string option" document
  | OwnerNull
  | OwnerBool bool
  | OwnerNum int
  | OwnerArray "json list"

record listed_file =
  lf_owner :: "owner_value option"
  lf_props :: document

text \<open>The listed owner as the JSON value it is.\<close>

fun owner_json :: "owner_value \<Rightarrow> json" where
  "owner_json (OwnerString s) = JStr s"
| "owner_json (OwnerObject None rest) = JObj rest"
| "owner_json (OwnerObject (Some i) rest) = JObj ((''$id'', JStr i) # rest)"
| "owner_json OwnerNull = JNull"
| "owner_json (OwnerBool b) = JBool b"
| "owner_json (OwnerNum n) = JNum n"
| "owner_json (OwnerArray xs) = JArr xs"

text \<open>A file as \<^verbatim>\<open>getFiles\<close> returns it, serialised: the \<^verbatim>\<open>owner\<close> property, if there
  is one, and the other properties.\<close>

record shown_file =
  sf_owner :: "json option"
  sf_props :: document

text \<open>The outcome of every call \<^verbatim>\<open>getFiles\<close> makes. The user documents attached to
  the files are untyped objects; the database answers to the query (users collection: to
  the document id or the query) it is given.\<close>

record files_backend =
  gf_createAdminClient :: "error + unit"
  gf_session :: session_backend
  gf_listFiles :: "query list \<Rightarrow> error + listed_file document_list"
  gf_getUser :: "string \<Rightarrow> error + document"
  gf_listUsers :: "query list \<Rightarrow> error + document document_list"

text \<open>The owner id collected from a file in the first pass: the owner itself when it is
  a string, \<^verbatim>\<open>f.owner.$id ?? null\<close> when it is an object other than \<^verbatim>\<open>null\<close> (an array
  is one, and has no \<^verbatim>\<open>$id\<close>), else \<^verbatim>\<open>null\<close>.\<close>

definition collectOwnerId :: "listed_file \<Rightarrow> string option" where
  "collectOwnerId f =
     (case lf_owner f of
        Some (OwnerString s) \<Rightarrow> Some s
      | Some (OwnerObject i rest) \<Rightarrow> i
      | _ \<Rightarrow> None)"

text \<open>\<^verbatim>\<open>Array.from(new Set(xs))\<close>: the first occurrence of each element, in order.\<close>

definition js_unique :: "'a list \<Rightarrow> 'a list" where
  "js_unique xs = rev (remdups (rev xs))"

definition ownerIds :: "listed_file list \<Rightarrow> string list" where
  "ownerIds files = js_unique (map the (filter truthy_opt (map collectOwnerId files)))"

text \<open>\<^verbatim>\<open>ownerMap\<close>, an object that starts as \<^verbatim>\<open>{}\<close>: its own properties (a value of
  \<open>None\<close> is \<^verbatim>\<open>undefined\<close>), and the object put in place of \<^verbatim>\<open>Object.prototype\<close> as
  its prototype, if one was.\<close>

record owner_map =
  om_own :: "(string \<times> document option) list"
  om_proto :: "document option"

definition emptyOwnerMap :: owner_map where
  "emptyOwnerMap = \<lparr>om_own = [], om_proto = None\<rparr>"

fun set_own :: "string \<Rightarrow> document option \<Rightarrow> (string \<times> document option) list \<Rightarrow>
    (string \<times> document option) list" where
  "set_own k v [] = [(k, v)]"
| "set_own k v (p # ps) = (if fst p = k then (k, v) # ps else p # set_own k v ps)"

text \<open>\<^verbatim>\<open>ownerMap[k] = v\<close>. The name \<^verbatim>\<open>__proto__\<close> reaches the setter of
  \<^verbatim>\<open>Object.prototype\<close>, which makes an object the prototype and ignores
  \<^verbatim>\<open>undefined\<close>, unless a data property of that name is found first (an own one, or one
  of a user document made the prototype); any other name becomes an own property.\<close>

definition assignOwner :: "owner_map \<Rightarrow> string \<Rightarrow> document option \<Rightarrow> owner_map" where
  "assignOwner m k v =
     (if k = protoName
         \<and> map_of (om_own m) k = None
         \<and> (case om_proto m of None \<Rightarrow> True | Some p \<Rightarrow> map_of p k = None)
      then (case v of None \<Rightarrow> m | Some d \<Rightarrow> m\<lparr>om_proto := Some d\<rparr>)
      else m\<lparr>om_own := set_own k v (om_own m)\<rparr>)"

text \<open>What a read \<^verbatim>\<open>ownerMap[k]\<close> gives: \<^verbatim>\<open>undefined\<close>, a JSON value, one of the
  inherited functions, or \<^verbatim>\<open>Object.prototype\<close> itself.\<close>

datatype looked = Nullish | Value json | InheritedFunction | ObjectPrototype

definition inherited :: "string \<Rightarrow> looked" where
  "inherited k =
     (if k = protoName then ObjectPrototype
      else if k \<in> set objectPrototypeFunctions then InheritedFunction
      else Nullish)"

definition lookupOwner :: "owner_map \<Rightarrow> string \<Rightarrow> looked" where
  "lookupOwner m k =
     (case map_of (om_own m) k of
        Some None \<Rightarrow> Nullish
      | Some (Some d) \<Rightarrow> Value (JObj d)
      | None \<Rightarrow>
          (case om_proto m of
             None \<Rightarrow> inherited k
           | Some p \<Rightarrow>
               (case map_of p k of
                  Some v \<Rightarrow> Value v
                | None \<Rightarrow> if k = protoName then Value (JObj p) else inherited k)))"

text \<open>The callback run for one owner id, with the calls it makes and the assignment to
  \<^verbatim>\<open>ownerMap\<close> it ends in, if any. It never throws. Storing \<^verbatim>\<open>documents[0]\<close> of an
  empty array stores \<^verbatim>\<open>undefined\<close>.\<close>

definition resolveOwner ::
  "files_backend \<Rightarrow> string \<Rightarrow> owner_map \<Rightarrow> owner_map \<times> event list" where
  "resolveOwner be ownerId ownerMap =
     (case gf_getUser be ownerId of
        Inr userDoc \<Rightarrow>
          (assignOwner ownerMap ownerId (Some userDoc),
           [GetDocument usersCollection ownerId True, OwnerMapSet ownerId (Some userDoc)])
      | Inl err \<Rightarrow>
          (case gf_listUsers be [QEqual ''accountId'' (Multi [ownerId]), QLimit 1] of
             Inl err2 \<Rightarrow>
               (ownerMap,
                [GetDocument usersCollection ownerId False,
                 ListDocuments usersCollection
                   [QEqual ''accountId'' (Multi [ownerId]), QLimit 1] False])
           | Inr byAccount \<Rightarrow>
               if total byAccount > 0
               then (assignOwner ownerMap ownerId (js_index (documents byAccount) 0),
                     [GetDocument usersCollection ownerId False,
                      ListDocuments usersCollection
                        [QEqual ''accountId'' (Multi [ownerId]), QLimit 1] True,
                      OwnerMapSet ownerId (js_index (documents byAccount) 0)])
               else (case gf_listUsers be [QEqual ''email'' (Multi [ownerId]), QLimit 1] of
                       Inl err2 \<Rightarrow>
                         (ownerMap,
                          [GetDocument usersCollection ownerId False,
                           ListDocuments usersCollection
                             [QEqual ''accountId'' (Multi [ownerId]), QLimit 1] True,
                           ListDocuments usersCollection
                             [QEqual ''email'' (Multi [ownerId]), QLimit 1] False])
                     | Inr byEmail \<Rightarrow>
                         if total byEmail > 0
                         then (assignOwner ownerMap ownerId (js_index (documents byEmail) 0),
                               [GetDocument usersCollection ownerId False,
                                ListDocuments usersCollection
                                  [QEqual ''accountId'' (Multi [ownerId]), QLimit 1] True,
                                ListDocuments usersCollection
                                  [QEqual ''email'' (Multi [ownerId]), QLimit 1] True,
                                OwnerMapSet ownerId (js_index (documents byEmail) 0)])
                         else (ownerMap,
                               [GetDocument usersCollection ownerId False,
                                ListDocuments usersCollection
                                  [QEqual ''accountId'' (Multi [ownerId]), QLimit 1] True,
                                ListDocuments usersCollection
                                  [QEqual ''email'' (Multi [ownerId]), QLimit 1] True]))))"

text \<open>\<^verbatim>\<open>Promise.all(ownerIds.map(...))\<close>: the callbacks only read from the backend, and
  each assigns under its own id, so what \<^verbatim>\<open>ownerMap\<close> is in the end does not depend on
  how they interleave; they are run here one after the other, each with its own trace.\<close>

fun resolveOwners ::
  "files_backend \<Rightarrow> string list \<Rightarrow> owner_map \<Rightarrow> owner_map \<times> (string \<times> event list) list" where
  "resolveOwners be [] ownerMap = (ownerMap, [])"
| "resolveOwners be (ownerId # rest) ownerMap =
     (case resolveOwner be ownerId ownerMap of
        (ownerMap', tr) \<Rightarrow>
          (case resolveOwners be rest ownerMap' of
             (ownerMap'', trs) \<Rightarrow> (ownerMap'', (ownerId, tr) # trs)))"

text \<open>The owner id read from a file in the second pass:
  \<^verbatim>\<open>typeof f.owner === "string" ? f.owner : (f.owner?.$id ?? null)\<close>.\<close>

definition ownerIdValue :: "listed_file \<Rightarrow> string option" where
  "ownerIdValue f =
     (case lf_owner f of
        Some (OwnerString s) \<Rightarrow> Some s
      | Some (OwnerObject i rest) \<Rightarrow> i
      | _ \<Rightarrow> None)"

text \<open>The property \<^verbatim>\<open>owner: resolvedOwner ?? f.owner\<close> once serialised: \<^verbatim>\<open>null\<close> and
  \<^verbatim>\<open>undefined\<close> give way to the listed owner; a property whose value is a function or
  \<^verbatim>\<open>undefined\<close> is left out by \<^verbatim>\<open>JSON.stringify\<close>; \<^verbatim>\<open>Object.prototype\<close> has no
  property of its own to write.\<close>

definition shownOwner :: "looked \<Rightarrow> owner_value option \<Rightarrow> json option" where
  "shownOwner resolvedOwner listed =
     (case resolvedOwner of
        Nullish \<Rightarrow> map_option owner_json listed
      | Value v \<Rightarrow> if v = JNull then map_option owner_json listed else Some v
      | InheritedFunction \<Rightarrow> None
      | ObjectPrototype \<Rightarrow> Some (JObj []))"

definition attachOwner :: "owner_map \<Rightarrow> listed_file \<Rightarrow> shown_file" where
  "attachOwner ownerMap f =
     (let resolvedOwner = (case ownerIdValue f of
                             None \<Rightarrow> Nullish
                           | Some i \<Rightarrow> if truthy_str i then lookupOwner ownerMap i else Nullish)
      in \<lparr>sf_owner = shownOwner resolvedOwner (lf_owner f), sf_props = lf_props f\<rparr>)"

text \<open>The part of \<^verbatim>\<open>getFiles\<close> after the listing resolved: the owner map is built
  from the empty object, then every file gets its owner attached.\<close>

definition resolvedOwners ::
  "files_backend \<Rightarrow> listed_file list \<Rightarrow> owner_map \<times> (string \<times> event list) list" where
  "resolvedOwners be files = resolveOwners be (ownerIds files) emptyOwnerMap"

definition withOwners ::
  "files_backend \<Rightarrow> listed_file document_list \<Rightarrow>
     shown_file document_list \<times> (string \<times> event list) list" where
  "withOwners be filesResp =
     (let files = documents filesResp in
      case resolvedOwners be files of
        (ownerMap, trs) \<Rightarrow>
          (\<lparr>total = total filesResp, documents = map (attachOwner ownerMap) files\<rparr>, trs))"

text \<open>The queries of the listing, with the defaults of the parameters of \<^verbatim>\<open>getFiles\<close>.\<close>

definition listingQueries ::
  "user_document \<Rightarrow> string list option \<Rightarrow> string option \<Rightarrow> string option \<Rightarrow> int option \<Rightarrow>
     query list" where
  "listingQueries currentUser typesArg searchTextArg sortArg limit =
     (let types = (case typesArg of None \<Rightarrow> [] | Some ts \<Rightarrow> ts);
          searchText = (case searchTextArg of None \<Rightarrow> [] | Some t \<Rightarrow> t);
          sortStr = (case sortArg of None \<Rightarrow> ''$createdAt-desc'' | Some t \<Rightarrow> t)
      in createQueries currentUser types searchText sortStr limit)"

text \<open>\<^verbatim>\<open>getFiles\<close>: the result, and the calls made for each owner.\<close>

definition getFiles ::
  "files_backend \<Rightarrow> string list option \<Rightarrow> string option \<Rightarrow> string option \<Rightarrow> int option \<Rightarrow>
     (error + shown_file document_list) \<times> (string \<times> event list) list" where
  "getFiles be typesArg searchTextArg sortArg limit =
     (case gf_createAdminClient be of
        Inl e \<Rightarrow> (Inl e, [])
      | Inr c \<Rightarrow>
         (case fst (getCurrentUser (gf_session be)) of
            Inl e \<Rightarrow> (handleError e, [])
          | Inr (Found currentUser) \<Rightarrow>
              (case gf_listFiles be
                      (listingQueries currentUser typesArg searchTextArg sortArg limit) of
                 Inl e \<Rightarrow> (handleError e, [])
               | Inr filesResp \<Rightarrow>
                   (case withOwners be filesResp of
                      (out, trs) \<Rightarrow>
                        (case parseStringify (Some out) of
                           Inl e \<Rightarrow> (handleError e, trs)
                         | Inr v \<Rightarrow> (Inr v, trs))))
          | Inr other \<Rightarrow> (handleError (JsError ''User not found''), [])))"

section \<open>Space used\<close>

text \<open>A file document as \<^verbatim>\<open>getTotalSpaceUsed\<close> reads it; a size is a whole number of
  bytes.\<close>

record file_document =
  fd_type :: string
  fd_size :: int
  fd_updatedAt :: string     \<comment> \<open>\<^verbatim>\<open>$updatedAt\<close>\<close>

text \<open>Numbers are IEEE doubles. On whole numbers \<^verbatim>\<open>a + b\<close> is the exact sum rounded to
  53 significant bits, a tie going to the even neighbour; every whole number up to
  \<open>2 ^ 53\<close> in magnitude is its own double. Sums stay far below the largest double.\<close>

function bitlength :: "int \<Rightarrow> nat" where
  "bitlength n = (if n \<le> 0 then 0 else Suc (bitlength (n div 2)))"
  by auto
termination
  by (relation "measure nat") auto

declare bitlength.simps [simp del]

definition toDouble :: "int \<Rightarrow> int" where
  "toDouble n =
     (let a = \<bar>n\<bar> in
      if a \<le> 2 ^ 53 then n
      else (let e = bitlength a - 53;
                q = a div 2 ^ e;
                r = a mod 2 ^ e;
                h = 2 ^ (e - 1);
                q' = (if r > h \<or> (r = h \<and> odd q) then q + 1 else q)
            in sgn n * (q' * 2 ^ e)))"

definition js_add :: "int \<Rightarrow> int \<Rightarrow> int" where
  "js_add a b = toDouble (a + b)"

record type_total =
  tt_size :: int
  tt_latestDate :: string

record total_space =
  ts_image :: type_total
  ts_document :: type_total
  ts_video :: type_total
  ts_audio :: type_total
  ts_other :: type_total
  ts_used :: int
  ts_all :: int

definition emptyTotal :: type_total where
  "emptyTotal = \<lparr>tt_size = 0, tt_latestDate = []\<rparr>"

definition initialTotalSpace :: total_space where
  "initialTotalSpace =
     \<lparr>ts_image = emptyTotal, ts_document = emptyTotal, ts_video = emptyTotal,
      ts_audio = emptyTotal, ts_other = emptyTotal, ts_used = 0,
      ts_all = 2 * 1024 * 1024 * 1024\<rparr>"

definition fileTypes :: "string list" where
  "fileTypes = [''image'', ''document'', ''video'', ''audio'', ''other'']"

text \<open>What \<^verbatim>\<open>totalSpace[fileType]\<close> finds: one of the five per-type totals; the number
  under \<^verbatim>\<open>used\<close> or \<^verbatim>\<open>all\<close>; an object that \<^verbatim>\<open>totalSpace\<close> inherits (a function of
  \<^verbatim>\<open>Object.prototype\<close>, or \<^verbatim>\<open>Object.prototype\<close> itself under \<^verbatim>\<open>__proto__\<close>); or
  nothing.\<close>

datatype member = Total type_total | NumberMember | InheritedObject | NoMember

definition getTotal :: "string \<Rightarrow> total_space \<Rightarrow> member" where
  "getTotal t ts =
     (if t = ''image'' then Total (ts_image ts)
      else if t = ''document'' then Total (ts_document ts)
      else if t = ''video'' then Total (ts_video ts)
      else if t = ''audio'' then Total (ts_audio ts)
      else if t = ''other'' then Total (ts_other ts)
      else if t = ''used'' \<or> t = ''all'' then NumberMember
      else if t = protoName \<or> t \<in> set objectPrototypeFunctions then InheritedObject
      else NoMember)"

definition setTotal :: "string \<Rightarrow> type_total \<Rightarrow> total_space \<Rightarrow> total_space" where
  "setTotal t b ts =
     (if t = ''image'' then ts\<lparr>ts_image := b\<rparr>
      else if t = ''document'' then ts\<lparr>ts_document := b\<rparr>
      else if t = ''video'' then ts\<lparr>ts_video := b\<rparr>
      else if t = ''audio'' then ts\<lparr>ts_audio := b\<rparr>
      else if t = ''other'' then ts\<lparr>ts_other := b\<rparr>
      else ts)"

text \<open>\<^verbatim>\<open>new Date(a) > new Date(b)\<close>: the parser of the runtime is a parameter giving the
  time value of a string, \<open>None\<close> for an invalid date; a comparison with an invalid date is
  false.\<close>

definition dateGreater :: "(string \<Rightarrow> int option) \<Rightarrow> string \<Rightarrow> string \<Rightarrow> bool" where
  "dateGreater parseDate a b =
     (case (parseDate a, parseDate b) of
        (Some x, Some y) \<Rightarrow> x > y
      | _ \<Rightarrow> False)"

text \<open>The body of the \<^verbatim>\<open>forEach\<close> callback. Its first statement,
  \<^verbatim>\<open>totalSpace[fileType].size += file.size\<close>, throws a \<^verbatim>\<open>TypeError\<close> when it reads
  \<^verbatim>\<open>size\<close> of \<^verbatim>\<open>undefined\<close>, and when it sets \<^verbatim>\<open>size\<close> on a number (the module is
  strict code). On an inherited object the three statements run through: \<^verbatim>\<open>size\<close> and
  \<^verbatim>\<open>latestDate\<close> are set on that object, and of \<^verbatim>\<open>totalSpace\<close> only \<^verbatim>\<open>used\<close>
  changes.\<close>

definition addFile ::
  "(string \<Rightarrow> int option) \<Rightarrow> total_space \<Rightarrow> file_document \<Rightarrow> error + total_space" where
  "addFile parseDate totalSpace file =
     (let fileType = fd_type file in
      case getTotal fileType totalSpace of
        NoMember \<Rightarrow> Inl (TypeError ''TypeError'')
      | NumberMember \<Rightarrow> Inl (TypeError ''TypeError'')
      | InheritedObject \<Rightarrow>
          Inr (totalSpace\<lparr>ts_used := js_add (ts_used totalSpace) (fd_size file)\<rparr>)
      | Total b \<Rightarrow>
          (let b = b\<lparr>tt_size := js_add (tt_size b) (fd_size file)\<rparr>;
               used = js_add (ts_used totalSpace) (fd_size file);
               b = (if \<not> truthy_str (tt_latestDate b)
                       \<or> dateGreater parseDate (fd_updatedAt file) (tt_latestDate b)
                    then b\<lparr>tt_latestDate := fd_updatedAt file\<rparr> else b)
           in Inr ((setTotal fileType b totalSpace)\<lparr>ts_used := used\<rparr>)))"

fun addFiles ::
  "(string \<Rightarrow> int option) \<Rightarrow> total_space \<Rightarrow> file_document list \<Rightarrow> error + total_space" where
  "addFiles parseDate totalSpace [] = Inr totalSpace"
| "addFiles parseDate totalSpace (file # files) =
     (case addFile parseDate totalSpace file of
        Inl e \<Rightarrow> Inl e
      | Inr totalSpace' \<Rightarrow> addFiles parseDate totalSpace' files)"

record totals_backend =
  tb_createSessionClient :: "error + unit"
  tb_session :: session_backend
  tb_listFiles :: "query list \<Rightarrow> error + file_document document_list"

definition getTotalSpaceUsed ::
  "(string \<Rightarrow> int option) \<Rightarrow> totals_backend \<Rightarrow> error + total_space" where
  "getTotalSpaceUsed parseDate be =
     (case tb_createSessionClient be of
        Inl e \<Rightarrow> handleError e
      | Inr c \<Rightarrow>
         (case fst (getCurrentUser (tb_session be)) of
            Inl e \<Rightarrow> handleError e
          | Inr (Found currentUser) \<Rightarrow>
              (case tb_listFiles be [QEqual ''owner'' (Multi [user_id currentUser])] of
                 Inl e \<Rightarrow> handleError e
               | Inr files \<Rightarrow>
                   (case addFiles parseDate initialTotalSpace (documents files) of
                      Inl e \<Rightarrow> handleError e
                    | Inr totalSpace \<Rightarrow>
                        (case parseStringify (Some totalSpace) of
                           Inl e \<Rightarrow> handleError e
                         | Inr v \<Rightarrow> Inr v)))
          | Inr other \<Rightarrow> handleError (JsError ''User is not authenticated.'')))"

text \<open>For the statements about \<^verbatim>\<open>getTotalSpaceUsed\<close>: the date \<open>a\<close> is not later than
  the date \<open>b\<close>, both being valid; and the bytes of the files of one type.\<close>

definition notLater :: "(string \<Rightarrow> int option) \<Rightarrow> string \<Rightarrow> string \<Rightarrow> bool" where
  "notLater parseDate a b =
     (case (parseDate a, parseDate b) of
        (Some x, Some y) \<Rightarrow> x \<le> y
      | _ \<Rightarrow> False)"

definition typeSize :: "string \<Rightarrow> file_document list \<Rightarrow> int" where
  "typeSize t files = sum_list (map fd_size (filter (\<lambda>f. fd_type f = t) files))"

text \<open>For the induction over the files: the bound below which every sum is exact, and
  that the six numbers of \<^verbatim>\<open>totalSpace\<close> are within a bound.\<close>

definition exactBound :: int where
  "exactBound = 2 ^ 53"

definition within :: "int \<Rightarrow> total_space \<Rightarrow> bool" where
  "within A ts =
     (\<bar>tt_size (ts_image ts)\<bar> \<le> A \<and> \<bar>tt_size (ts_document ts)\<bar> \<le> A
      \<and> \<bar>tt_size (ts_video ts)\<bar> \<le> A \<and> \<bar>tt_size (ts_audio ts)\<bar> \<le> A
      \<and> \<bar>tt_size (ts_other ts)\<bar> \<le> A \<and> \<bar>ts_used ts\<bar> \<le> A)"

section \<open>Example inputs\<close>

text \<open>Concrete backends and documents at which the theorems below are evaluated.\<close>

definition ex_user :: user_document where
  "ex_user = \<lparr>user_id = ''u1'', user_fullName = ''A'', user_email = ''a@b.c'',
              user_avatar = [], user_accountId = ''acc''\<rparr>"

definition ex_utils :: utils where
  "ex_utils = \<lparr>constructFileUrl = (\<lambda>i. ''https://bucket/'' @ i),
               getFileType_type = (\<lambda>n. ''document''),
               getFileType_extension = (\<lambda>n. ''pdf'')\<rparr>"

definition ex_bucketFile :: bucket_file where
  "ex_bucketFile = \<lparr>bf_id = ''b1'', bf_name = ''a.pdf'', bf_sizeOriginal = 10\<rparr>"

definition ex_attrs :: "attribute list" where
  "ex_attrs = [\<lparr>attr_key = Some ''name'', attr_id = None\<rparr>,
               \<lparr>attr_key = None, attr_id = Some ''accountId''\<rparr>,
               \<lparr>attr_key = Some ''account_id'', attr_id = None\<rparr>,
               \<lparr>attr_key = Some ''bucketFile'', attr_id = None\<rparr>,
               \<lparr>attr_key = Some [], attr_id = Some ''url''\<rparr>]"

text \<open>An upload whose document creation is rejected; the answer to \<^verbatim>\<open>deleteFile\<close>
  is left open.\<close>

definition ex_upload :: "(error + unit) \<Rightarrow> upload_backend" where
  "ex_upload deleted =
     \<lparr>up_createAdminClient = Inr (),
      up_createFile = Inr ex_bucketFile,
      up_listAttributes = Inr (WithAttributes ex_attrs),
      up_createDocument = (\<lambda>d. Inl (BackendError ''document rejected'')),
      up_deleteFile = (\<lambda>i. deleted)\<rparr>"

text \<open>A sign-out; the answer to \<^verbatim>\<open>deleteSession\<close> is left open.\<close>

definition ex_signout :: "(error + unit) \<Rightarrow> signout_backend" where
  "ex_signout deleted = \<lparr>so_createSessionClient = Inr (), so_deleteSession = (\<lambda>s. deleted)\<rparr>"

text \<open>A session whose account has the user document \<open>ex_user\<close>.\<close>

definition ex_session :: session_backend where
  "ex_session = \<lparr>sb_createSessionClient = Inr (), sb_accountGet = Inr ''acc'',
                 sb_listUsers = (\<lambda>q. Inr \<lparr>total = 1, documents = [ex_user]\<rparr>)\<rparr>"


text \<open>Three documents of 10, 20 and 30 bytes, the second the most recently updated, with a
  parser for their timestamps.\<close>

definition ex_parseDate :: "string \<Rightarrow> int option" where
  "ex_parseDate s =
     (if s = ''2024-01-01'' then Some 1704067200000
      else if s = ''2024-01-02'' then Some 1704153600000
      else if s = ''2024-01-03'' then Some 1704240000000
      else None)"

definition ex_files :: "file_document list" where
  "ex_files = [\<lparr>fd_type = ''document'', fd_size = 10, fd_updatedAt = ''2024-01-02''\<rparr>,
               \<lparr>fd_type = ''document'', fd_size = 20, fd_updatedAt = ''2024-01-03''\<rparr>,
               \<lparr>fd_type = ''document'', fd_size = 30, fd_updatedAt = ''2024-01-01''\<rparr>]"

definition ex_totals :: "file_document list \<Rightarrow> totals_backend" where
  "ex_totals files =
     \<lparr>tb_createSessionClient = Inr (), tb_session = ex_session,
      tb_listFiles = (\<lambda>q. Inr \<lparr>total = int (length files), documents = files\<rparr>)\<rparr>"

text \<open>A listing of four files of four owners: the first is found by id, the second by
  email after the query by account id counted none, the third, whose id is the name of an
  inherited function, is found by no lookup, and for the fourth the query by account id
  fails.\<close>

definition ex_owner :: document where
  "ex_owner = [(''$id'', JStr ''u1''), (''fullName'', JStr ''A'')]"

definition ex_owner2 :: document where
  "ex_owner2 = [(''$id'', JStr ''d2''), (''email'', JStr ''u2'')]"

definition ex_listing :: "listed_file list" where
  "ex_listing =
     [\<lparr>lf_owner = Some (OwnerString ''u1''), lf_props = [(''name'', JStr ''x'')]\<rparr>,
      \<lparr>lf_owner = Some (OwnerObject (Some ''u2'') []), lf_props = [(''name'', JStr ''y'')]\<rparr>,
      \<lparr>lf_owner = Some (OwnerString ''constructor''), lf_props = [(''name'', JStr ''z'')]\<rparr>,
      \<lparr>lf_owner = Some (OwnerString ''u3''), lf_props = [(''name'', JStr ''w'')]\<rparr>]"

definition ex_filesBackend :: files_backend where
  "ex_filesBackend =
     \<lparr>gf_createAdminClient = Inr (), gf_session = ex_session,
      gf_listFiles = (\<lambda>q. Inr \<lparr>total = 4, documents = ex_listing\<rparr>),
      gf_getUser = (\<lambda>i. if i = ''u1'' then Inr ex_owner else Inl (BackendError ''not found'')),
      gf_listUsers =
        (\<lambda>q. if q = [QEqual ''email'' (Multi [''u2'']), QLimit 1]
              then Inr \<lparr>total = 1, documents = [ex_owner2]\<rparr>
              else if q = [QEqual ''accountId'' (Multi [''u3'']), QLimit 1]
              then Inl (BackendError ''unavailable'')
              else Inr \<lparr>total = 0, documents = []\<rparr>)\<rparr>"

section \<open>Properties of the query list\<close>

lemma is_order_sortClause: "is_order (sortClause s)"
  by (simp add: sortClause_def Let_def)

lemma sortClause_not_others:
  "\<not> is_limit (sortClause s)" "\<not> is_type_filter (sortClause s)" "\<not> is_name_filter (sortClause s)"
  by (simp_all add: sortClause_def Let_def)

text \<open>C6 as the spec states it fails where a guard of \<^verbatim>\<open>createQueries\<close> tests
  truthiness: a limit of \<open>0\<close> is given but adds no limit clause, and an empty sort string
  adds no ordering clause.\<close>

theorem createQueries_counterexample:
  "\<not> list_ex is_limit (createQueries ex_user [] [] [] (Some 0))
   \<and> length (filter is_order (createQueries ex_user [] [] [] (Some 0))) = 0"
  by (simp add: createQueries_def truthy_str_def truthy_num_def ex_user_def)

text \<open>C6, amended: the query list starts with the OR clause of owner-equals-id and, iff the
  email is non-empty, users-contains-email; it holds the type filter iff the type list is
  non-empty, the name filter iff the search text is non-empty, a limit clause iff a limit
  is given and is not \<open>0\<close>, and one ordering clause, derived from the sort string, iff the
  sort string is non-empty (none otherwise).\<close>

theorem createQueries_clauses:
  "(\<exists>rest. createQueries cu ts st srt lim =
      QOr (QEqual ''owner'' (Multi [user_id cu])
           # (if user_email cu = [] then [] else [QContains ''users'' (Multi [user_email cu])]))
      # rest)
   \<and> filter is_type_filter (createQueries cu ts st srt lim)
       = (if ts = [] then [] else [QEqual ''type'' (Multi ts)])
   \<and> filter is_name_filter (createQueries cu ts st srt lim)
       = (if st = [] then [] else [QContains ''name'' (Single st)])
   \<and> filter is_limit (createQueries cu ts st srt lim)
       = (case lim of None \<Rightarrow> [] | Some n \<Rightarrow> if n = 0 then [] else [QLimit n])
   \<and> filter is_order (createQueries cu ts st srt lim)
       = (if srt = [] then [] else [sortClause srt])"
  by (simp add: createQueries_def Let_def truthy_str_def truthy_num_def is_order_sortClause
      sortClause_not_others split: option.split)

text \<open>The amended C6 at a listing with every option set.\<close>

theorem createQueries_clauses_witness:
  "filter is_limit (createQueries ex_user [''image''] ''cat'' ''name-asc'' (Some 5)) = [QLimit 5]
   \<and> filter is_order (createQueries ex_user [''image''] ''cat'' ''name-asc'' (Some 5))
       = [QOrderAsc ''name'']
   \<and> filter is_name_filter (createQueries ex_user [''image''] ''cat'' ''name-asc'' (Some 5))
       = [QContains ''name'' (Single ''cat'')]"
  using createQueries_clauses [of ex_user "[''image'']" "''cat''" "''name-asc''" "Some 5"]
  by (simp add: sortClause_def)

section \<open>Properties of the upload\<close>

text \<open>C1 as the spec states it fails when the rollback itself is rejected: the document
  creation fails, \<^verbatim>\<open>deleteFile\<close> fails too, the caller gets the error of
  \<^verbatim>\<open>deleteFile\<close> and the bucket object stays.\<close>

theorem uploadFile_counterexample:
  "fst (uploadFile ex_utils (ex_upload (Inl (BackendError ''storage unavailable''))) ''u1'' ''acc1'' ''/'')
     = Inl (BackendError ''storage unavailable'')
   \<and> bucket_after (snd (uploadFile ex_utils (ex_upload (Inl (BackendError ''storage unavailable'')))
        ''u1'' ''acc1'' ''/'')) [] = [''b1'']"
  by (simp add: uploadFile_def createFileDocument_def rollback_def handleError_def
      bucket_after_def ex_upload_def ex_bucketFile_def)

text \<open>C1, amended: when storing the bytes succeeds and \<^verbatim>\<open>createDocument\<close> fails,
  \<^verbatim>\<open>uploadFile\<close> calls \<^verbatim>\<open>deleteFile\<close> on the object just created, and nothing
  after it. If that call succeeds, the error of \<^verbatim>\<open>createDocument\<close> is thrown to the
  caller and the object is no longer in the bucket; if it fails, its own error is thrown
  and the object stays.\<close>

theorem uploadFile_rollback:
  assumes "up_createAdminClient be = Inr c"
    and "up_createFile be = Inr bucketFile"
    and "up_listAttributes be = Inr attrsResp"
    and "up_createDocument be (fileDocument u (attrsArray attrsResp) bucketFile ownerId accountId)
           = Inl err"
  shows "snd (uploadFile u be ownerId accountId path)
           = [StorageCreateFile (Some (bf_id bucketFile)), ListAttributes filesCollection True,
              CreateDocument filesCollection
                (fileDocument u (attrsArray attrsResp) bucketFile ownerId accountId) False,
              StorageDeleteFile (bf_id bucketFile) (\<not> isl (up_deleteFile be (bf_id bucketFile)))]
     \<and> (\<not> isl (up_deleteFile be (bf_id bucketFile)) \<longrightarrow>
          fst (uploadFile u be ownerId accountId path) = Inl err
          \<and> bf_id bucketFile \<notin> set (bucket_after (snd (uploadFile u be ownerId accountId path)) b)
          \<and> (bf_id bucketFile \<notin> set b \<longrightarrow>
               bucket_after (snd (uploadFile u be ownerId accountId path)) b = b))
     \<and> (\<forall>e2. up_deleteFile be (bf_id bucketFile) = Inl e2 \<longrightarrow>
          fst (uploadFile u be ownerId accountId path) = Inl e2
          \<and> bucket_after (snd (uploadFile u be ownerId accountId path)) b = bf_id bucketFile # b)"
  using assms
  by (cases "up_deleteFile be (bf_id bucketFile)")
     (simp_all add: uploadFile_def createFileDocument_def rollback_def handleError_def
        bucket_after_def Let_def)

text \<open>The amended C1 at an upload whose rollback succeeds.\<close>

theorem uploadFile_rollback_witness:
  "fst (uploadFile ex_utils (ex_upload (Inr ())) ''u1'' ''acc1'' ''/'')
     = Inl (BackendError ''document rejected'')
   \<and> bucket_after (snd (uploadFile ex_utils (ex_upload (Inr ())) ''u1'' ''acc1'' ''/'')) [''b0'']
     = [''b0'']"
  using uploadFile_rollback [where be = "ex_upload (Inr ())" and c = "()"
      and bucketFile = ex_bucketFile and attrsResp = "WithAttributes ex_attrs" and u = ex_utils
      and ownerId = "''u1''" and accountId = "''acc1''"
      and err = "BackendError ''document rejected''" and b = "[''b0'']" and path = "''/''"]
  by (simp add: ex_upload_def ex_bucketFile_def bucket_after_def)

section \<open>Properties of the session handlers\<close>

text \<open>C2 as the spec states it fails: when \<^verbatim>\<open>deleteSession\<close> is rejected the
  statement that deletes the cookie is skipped.\<close>

theorem signOutUser_counterexample:
  "CookieDelete ''appwrite-session''
     \<notin> set (snd (signOutUser (ex_signout (Inl (BackendError ''session not found'')))))
   \<and> cookies_after (snd (signOutUser (ex_signout (Inl (BackendError ''session not found'')))))
        [''appwrite-session''] = [''appwrite-session'']"
  by (simp add: signOutUser_def signOutBody_def handleError_def cookies_after_def ex_signout_def)

text \<open>C2, amended: \<^verbatim>\<open>signOutUser\<close> deletes the \<^verbatim>\<open>appwrite-session\<close> cookie exactly
  when the session client was made and the remote session deletion succeeded; when the
  deletion fails the cookie is left as it was. Once the session client exists the handler
  ends in the redirect to \<^verbatim>\<open>/sign-in\<close>, whether or not the deletion succeeded.\<close>

theorem signOutUser_cookie:
  "(CookieDelete sessionCookie \<in> set (snd (signOutUser be)))
     = (\<not> isl (so_createSessionClient be) \<and> \<not> isl (so_deleteSession be ''current''))
   \<and> cookies_after (snd (signOutUser be)) cs
     = (if \<not> isl (so_createSessionClient be) \<and> \<not> isl (so_deleteSession be ''current'')
        then removeAll sessionCookie cs else cs)
   \<and> (Redirect ''/sign-in'' \<in> set (snd (signOutUser be))) = (\<not> isl (so_createSessionClient be))
   \<and> fst (signOutUser be)
     = (case so_createSessionClient be of Inl e \<Rightarrow> Inl e | Inr c \<Rightarrow> Inl (NextRedirect ''/sign-in''))"
  by (simp add: signOutUser_def signOutBody_def handleError_def cookies_after_def
      split: sum.split prod.split)

text \<open>The amended C2 at a sign-out whose session deletion succeeds.\<close>

theorem signOutUser_cookie_witness:
  "CookieDelete sessionCookie \<in> set (snd (signOutUser (ex_signout (Inr ()))))
   \<and> cookies_after (snd (signOutUser (ex_signout (Inr ())))) [''appwrite-session''] = []"
  using signOutUser_cookie [of "ex_signout (Inr ())" "[''appwrite-session'']"]
  by (simp add: sessionCookie_def ex_signout_def)

text \<open>C7: \<^verbatim>\<open>getCurrentUser\<close> never throws. It returns \<^verbatim>\<open>undefined\<close> when making the
  session client, \<^verbatim>\<open>account.get\<close> or the user query fails, \<^verbatim>\<open>null\<close> when the query
  by account id counts no document, and the first document of the query otherwise (and
  \<^verbatim>\<open>undefined\<close> again should the query count documents but carry none).\<close>

theorem getCurrentUser_never_throws:
  "(\<exists>v. fst (getCurrentUser be) = Inr v)
   \<and> (isl (sb_createSessionClient be) \<or> isl (sb_accountGet be)
        \<or> (\<exists>rid. sb_accountGet be = Inr rid
              \<and> isl (sb_listUsers be [QEqual ''accountId'' (Single rid)]))
      \<longrightarrow> fst (getCurrentUser be) = Inr Undefined)
   \<and> (\<forall>rid user. \<not> isl (sb_createSessionClient be) \<and> sb_accountGet be = Inr rid
        \<and> sb_listUsers be [QEqual ''accountId'' (Single rid)] = Inr user \<and> total user \<le> 0
      \<longrightarrow> fst (getCurrentUser be) = Inr Null)
   \<and> (\<forall>rid user d ds. \<not> isl (sb_createSessionClient be) \<and> sb_accountGet be = Inr rid
        \<and> sb_listUsers be [QEqual ''accountId'' (Single rid)] = Inr user \<and> total user > 0
        \<and> documents user = d # ds
      \<longrightarrow> fst (getCurrentUser be) = Inr (Found d))
   \<and> (\<forall>rid user. \<not> isl (sb_createSessionClient be) \<and> sb_accountGet be = Inr rid
        \<and> sb_listUsers be [QEqual ''accountId'' (Single rid)] = Inr user \<and> total user > 0
        \<and> documents user = []
      \<longrightarrow> fst (getCurrentUser be) = Inr Undefined)"
  by (auto simp add: getCurrentUser_def currentUserBody_def parseStringify_def Let_def
      split: sum.split prod.split option.split list.split)

text \<open>C7 at a session with a user document, and at one whose account lookup fails.\<close>

theorem getCurrentUser_never_throws_witness:
  "fst (getCurrentUser ex_session) = Inr (Found ex_user)
   \<and> fst (getCurrentUser (ex_session\<lparr>sb_accountGet := Inl (BackendError ''no session'')\<rparr>))
       = Inr Undefined"
  using getCurrentUser_never_throws [of ex_session]
    getCurrentUser_never_throws [of "ex_session\<lparr>sb_accountGet := Inl (BackendError ''no session'')\<rparr>"]
  by (simp add: ex_session_def)

section \<open>Properties of the sign-up\<close>













section \<open>Properties of the space used\<close>

text \<open>Sums of whole numbers that stay within \<open>2 ^ 53\<close> in absolute value are exact in
  doubles; the first sum beyond it is rounded.\<close>

lemma js_add_rounds: "js_add (2 ^ 53) 1 = 2 ^ 53"
  by code_simp

lemma js_add_exact: "\<bar>a + b\<bar> \<le> exactBound \<Longrightarrow> js_add a b = a + b"
  unfolding js_add_def toDouble_def Let_def exactBound_def by (rule if_P)

lemma js_add_within:
  assumes "\<bar>x\<bar> \<le> A" and "A + \<bar>s\<bar> \<le> exactBound"
  shows "js_add x s = x + s" and "\<bar>x + s\<bar> \<le> A + \<bar>s\<bar>"
proof -
  from assms(1) show "\<bar>x + s\<bar> \<le> A + \<bar>s\<bar>" by linarith
  with assms(2) have "\<bar>x + s\<bar> \<le> exactBound" by linarith
  then show "js_add x s = x + s" by (rule js_add_exact)
qed

lemma abs_step: "\<bar>x\<bar> \<le> A \<Longrightarrow> \<bar>t\<bar> \<le> S \<Longrightarrow> \<bar>x + t\<bar> \<le> A + S" for x :: int
  by linarith

lemma typeSize_single: "typeSize t [f] = (if fd_type f = t then fd_size f else 0)"
  by (simp add: typeSize_def)

lemma addFile_sizes:
  assumes "fd_type f \<in> set fileTypes" and "within A ts"
    and "A + \<bar>fd_size f\<bar> \<le> exactBound"
  shows "\<exists>ts'. addFile pd ts f = Inr ts'
     \<and> tt_size (ts_image ts') = tt_size (ts_image ts) + typeSize ''image'' [f]
     \<and> tt_size (ts_document ts') = tt_size (ts_document ts) + typeSize ''document'' [f]
     \<and> tt_size (ts_video ts') = tt_size (ts_video ts) + typeSize ''video'' [f]
     \<and> tt_size (ts_audio ts') = tt_size (ts_audio ts) + typeSize ''audio'' [f]
     \<and> tt_size (ts_other ts') = tt_size (ts_other ts) + typeSize ''other'' [f]
     \<and> ts_used ts' = ts_used ts + fd_size f
     \<and> ts_all ts' = ts_all ts
     \<and> within (A + \<bar>fd_size f\<bar>) ts'"
proof -
  from assms(2) have w: "\<bar>tt_size (ts_image ts)\<bar> \<le> A" "\<bar>tt_size (ts_document ts)\<bar> \<le> A"
      "\<bar>tt_size (ts_video ts)\<bar> \<le> A" "\<bar>tt_size (ts_audio ts)\<bar> \<le> A"
      "\<bar>tt_size (ts_other ts)\<bar> \<le> A" "\<bar>ts_used ts\<bar> \<le> A"
    by (simp_all add: within_def)
  note u = js_add_within(1) [OF w(6) assms(3)]
  note b = js_add_within(1) [OF w(1) assms(3)] js_add_within(1) [OF w(2) assms(3)]
    js_add_within(1) [OF w(3) assms(3)] js_add_within(1) [OF w(4) assms(3)]
    js_add_within(1) [OF w(5) assms(3)]
  have e: "\<exists>ts'. addFile pd ts f = Inr ts'
     \<and> tt_size (ts_image ts') = tt_size (ts_image ts) + typeSize ''image'' [f]
     \<and> tt_size (ts_document ts') = tt_size (ts_document ts) + typeSize ''document'' [f]
     \<and> tt_size (ts_video ts') = tt_size (ts_video ts) + typeSize ''video'' [f]
     \<and> tt_size (ts_audio ts') = tt_size (ts_audio ts) + typeSize ''audio'' [f]
     \<and> tt_size (ts_other ts') = tt_size (ts_other ts) + typeSize ''other'' [f]
     \<and> ts_used ts' = ts_used ts + fd_size f
     \<and> ts_all ts' = ts_all ts"
  proof -
    from assms(1) consider "fd_type f = ''image''" | "fd_type f = ''document''"
      | "fd_type f = ''video''" | "fd_type f = ''audio''" | "fd_type f = ''other''"
      by (auto simp add: fileTypes_def)
    then show ?thesis
      by cases (simp_all add: addFile_def getTotal_def setTotal_def typeSize_def Let_def u b)
  qed
  then obtain ts' where
    r: "addFile pd ts f = Inr ts'"
      "tt_size (ts_image ts') = tt_size (ts_image ts) + typeSize ''image'' [f]"
      "tt_size (ts_document ts') = tt_size (ts_document ts) + typeSize ''document'' [f]"
      "tt_size (ts_video ts') = tt_size (ts_video ts) + typeSize ''video'' [f]"
      "tt_size (ts_audio ts') = tt_size (ts_audio ts) + typeSize ''audio'' [f]"
      "tt_size (ts_other ts') = tt_size (ts_other ts) + typeSize ''other'' [f]"
      "ts_used ts' = ts_used ts + fd_size f"
      "ts_all ts' = ts_all ts"
    by blast
  have t: "\<bar>typeSize t [f]\<bar> \<le> \<bar>fd_size f\<bar>" for t
    by (simp add: typeSize_single)
  have "within (A + \<bar>fd_size f\<bar>) ts'"
    unfolding within_def r(2-7)
    by (intro conjI abs_step [OF w(1) t] abs_step [OF w(2) t] abs_step [OF w(3) t]
        abs_step [OF w(4) t] abs_step [OF w(5) t] abs_step [OF w(6) order_refl])
  with r show ?thesis by blast
qed

lemma typeSize_Cons: "typeSize t (f # fs) = typeSize t [f] + typeSize t fs"
  by (simp add: typeSize_def)

lemma addFiles_sizes:
  assumes "\<forall>f\<in>set fs. fd_type f \<in> set fileTypes" and "within A ts"
    and "A + sum_list (map (\<lambda>f. \<bar>fd_size f\<bar>) fs) \<le> exactBound"
  shows "\<exists>ts'. addFiles pd ts fs = Inr ts'
     \<and> tt_size (ts_image ts') = tt_size (ts_image ts) + typeSize ''image'' fs
     \<and> tt_size (ts_document ts') = tt_size (ts_document ts) + typeSize ''document'' fs
     \<and> tt_size (ts_video ts') = tt_size (ts_video ts) + typeSize ''video'' fs
     \<and> tt_size (ts_audio ts') = tt_size (ts_audio ts) + typeSize ''audio'' fs
     \<and> tt_size (ts_other ts') = tt_size (ts_other ts) + typeSize ''other'' fs
     \<and> ts_used ts' = ts_used ts + sum_list (map fd_size fs)
     \<and> ts_all ts' = ts_all ts"
  using assms
proof (induction fs arbitrary: ts A)
  case Nil
  show ?case by (simp add: typeSize_def)
next
  case (Cons f fs)
  from Cons.prems(1) have f: "fd_type f \<in> set fileTypes" by simp
  have nn: "0 \<le> sum_list (map (\<lambda>f. \<bar>fd_size f\<bar>) fs)"
    by (intro sum_list_nonneg) auto
  with Cons.prems(3) have "A + \<bar>fd_size f\<bar> \<le> exactBound" by simp
  from addFile_sizes [OF f Cons.prems(2) this, of pd] obtain ts1 where
    s: "addFile pd ts f = Inr ts1"
      "tt_size (ts_image ts1) = tt_size (ts_image ts) + typeSize ''image'' [f]"
      "tt_size (ts_document ts1) = tt_size (ts_document ts) + typeSize ''document'' [f]"
      "tt_size (ts_video ts1) = tt_size (ts_video ts) + typeSize ''video'' [f]"
      "tt_size (ts_audio ts1) = tt_size (ts_audio ts) + typeSize ''audio'' [f]"
      "tt_size (ts_other ts1) = tt_size (ts_other ts) + typeSize ''other'' [f]"
      "ts_used ts1 = ts_used ts + fd_size f"
      "ts_all ts1 = ts_all ts"
      "within (A + \<bar>fd_size f\<bar>) ts1"
    by blast
  from Cons.prems(1) have fs: "\<forall>f\<in>set fs. fd_type f \<in> set fileTypes" by simp
  from Cons.prems(3)
  have "(A + \<bar>fd_size f\<bar>) + sum_list (map (\<lambda>f. \<bar>fd_size f\<bar>) fs) \<le> exactBound" by simp
  from Cons.IH [OF fs s(9) this] obtain ts' where
    r: "addFiles pd ts1 fs = Inr ts'"
      "tt_size (ts_image ts') = tt_size (ts_image ts1) + typeSize ''image'' fs"
      "tt_size (ts_document ts') = tt_size (ts_document ts1) + typeSize ''document'' fs"
      "tt_size (ts_video ts') = tt_size (ts_video ts1) + typeSize ''video'' fs"
      "tt_size (ts_audio ts') = tt_size (ts_audio ts1) + typeSize ''audio'' fs"
      "tt_size (ts_other ts') = tt_size (ts_other ts1) + typeSize ''other'' fs"
      "ts_used ts' = ts_used ts1 + sum_list (map fd_size fs)"
      "ts_all ts' = ts_all ts1"
    by blast
  from s r show ?case
    by (simp add: typeSize_Cons [of _ f fs])
qed

lemma within_initial: "within 0 initialTotalSpace"
  by (simp add: within_def initialTotalSpace_def emptyTotal_def)

lemma used_is_sum_of_types:
  assumes "\<forall>f\<in>set fs. fd_type f \<in> set fileTypes"
  shows "sum_list (map fd_size fs)
       = typeSize ''image'' fs + typeSize ''document'' fs + typeSize ''video'' fs
         + typeSize ''audio'' fs + typeSize ''other'' fs"
  using assms
  by (induction fs) (auto simp add: typeSize_def fileTypes_def)

lemma getTotalSpaceUsed_addFiles:
  assumes "tb_createSessionClient be = Inr c"
    and "fst (getCurrentUser (tb_session be)) = Inr (Found currentUser)"
    and "tb_listFiles be [QEqual ''owner'' (Multi [user_id currentUser])] = Inr files"
    and "addFiles pd initialTotalSpace (documents files) = Inr ts"
  shows "getTotalSpaceUsed pd be = Inr ts"
  using assms by (simp add: getTotalSpaceUsed_def parseStringify_def)

text \<open>C4: when every listed file has one of the five types, and the sizes add up, in
  absolute value, to at most \<open>2 ^ 53\<close>, so that every sum of doubles is exact,
  \<^verbatim>\<open>getTotalSpaceUsed\<close> returns totals in which the size of each type is the sum of the
  sizes of the files of that type, every file has exactly one of the five types, and
  \<^verbatim>\<open>used\<close> is the sum of the five sizes, which is the sum of all file sizes.\<close>

theorem getTotalSpaceUsed_counts_once:
  assumes "tb_createSessionClient be = Inr c"
    and "fst (getCurrentUser (tb_session be)) = Inr (Found currentUser)"
    and "tb_listFiles be [QEqual ''owner'' (Multi [user_id currentUser])] = Inr files"
    and "\<forall>f\<in>set (documents files). fd_type f \<in> set fileTypes"
    and "sum_list (map (\<lambda>f. \<bar>fd_size f\<bar>) (documents files)) \<le> 2 ^ 53"
  shows "\<exists>ts. getTotalSpaceUsed pd be = Inr ts
     \<and> tt_size (ts_image ts) = typeSize ''image'' (documents files)
     \<and> tt_size (ts_document ts) = typeSize ''document'' (documents files)
     \<and> tt_size (ts_video ts) = typeSize ''video'' (documents files)
     \<and> tt_size (ts_audio ts) = typeSize ''audio'' (documents files)
     \<and> tt_size (ts_other ts) = typeSize ''other'' (documents files)
     \<and> ts_used ts = tt_size (ts_image ts) + tt_size (ts_document ts) + tt_size (ts_video ts)
                    + tt_size (ts_audio ts) + tt_size (ts_other ts)
     \<and> ts_used ts = sum_list (map fd_size (documents files))
     \<and> (\<forall>f\<in>set (documents files). length (filter (\<lambda>t. fd_type f = t) fileTypes) = 1)"
proof -
  from assms(5)
  have bd: "0 + sum_list (map (\<lambda>f. \<bar>fd_size f\<bar>) (documents files)) \<le> exactBound"
    by (simp add: exactBound_def)
  from addFiles_sizes [OF assms(4) within_initial bd, of pd] obtain ts where
    r: "addFiles pd initialTotalSpace (documents files) = Inr ts"
      "tt_size (ts_image ts) = tt_size (ts_image initialTotalSpace) + typeSize ''image'' (documents files)"
      "tt_size (ts_document ts) = tt_size (ts_document initialTotalSpace) + typeSize ''document'' (documents files)"
      "tt_size (ts_video ts) = tt_size (ts_video initialTotalSpace) + typeSize ''video'' (documents files)"
      "tt_size (ts_audio ts) = tt_size (ts_audio initialTotalSpace) + typeSize ''audio'' (documents files)"
      "tt_size (ts_other ts) = tt_size (ts_other initialTotalSpace) + typeSize ''other'' (documents files)"
      "ts_used ts = ts_used initialTotalSpace + sum_list (map fd_size (documents files))"
    by blast
  note g = getTotalSpaceUsed_addFiles [OF assms(1-3) r(1)]
  note u = used_is_sum_of_types [OF assms(4)]
  have one: "\<forall>f\<in>set (documents files). length (filter (\<lambda>t. fd_type f = t) fileTypes) = 1"
    using assms(4) by (auto simp add: fileTypes_def)
  from g r(2-7) u one show ?thesis
    by (simp add: initialTotalSpace_def emptyTotal_def)
qed

text \<open>C4 at one image and three documents.\<close>

theorem getTotalSpaceUsed_counts_once_witness:
  "(\<exists>ts. getTotalSpaceUsed ex_parseDate
      (ex_totals (\<lparr>fd_type = ''image'', fd_size = 7, fd_updatedAt = ''2024-01-01''\<rparr> # ex_files)) = Inr ts
     \<and> tt_size (ts_image ts) = 7 \<and> tt_size (ts_document ts) = 60 \<and> tt_size (ts_video ts) = 0
     \<and> ts_used ts = 67)"
proof -
  have g: "fst (getCurrentUser (tb_session (ex_totals fs))) = Inr (Found ex_user)" for fs
    by (simp add: ex_totals_def ex_session_def getCurrentUser_def currentUserBody_def
        parseStringify_def)
  have t: "\<forall>f\<in>set (documents \<lparr>total = 4, documents =
        \<lparr>fd_type = ''image'', fd_size = 7, fd_updatedAt = ''2024-01-01''\<rparr> # ex_files\<rparr>).
        fd_type f \<in> set fileTypes"
    by (simp add: ex_files_def fileTypes_def)
  from getTotalSpaceUsed_counts_once [where be = "ex_totals
        (\<lparr>fd_type = ''image'', fd_size = 7, fd_updatedAt = ''2024-01-01''\<rparr> # ex_files)"
      and c = "()" and currentUser = ex_user and pd = ex_parseDate, OF _ g _ t]
  show ?thesis
    by (simp add: ex_totals_def ex_files_def typeSize_def) blast
qed

lemma notLater_trans: "notLater pd a b \<Longrightarrow> notLater pd b c \<Longrightarrow> notLater pd a c"
  by (auto simp add: notLater_def split: option.splits)

lemma notLater_refl: "pd a \<noteq> None \<Longrightarrow> notLater pd a a"
  by (auto simp add: notLater_def)

lemma dateGreater_notLater:
  "dateGreater pd a b \<Longrightarrow> notLater pd b a"
  by (auto simp add: notLater_def dateGreater_def split: option.splits)

lemma not_dateGreater_notLater:
  "pd a \<noteq> None \<Longrightarrow> pd b \<noteq> None \<Longrightarrow> \<not> dateGreater pd a b \<Longrightarrow> notLater pd a b"
  by (auto simp add: notLater_def dateGreater_def split: option.splits)

lemma addFile_latest:
  assumes "fd_type f = ''document''" and "fd_updatedAt f \<noteq> []" and "pd (fd_updatedAt f) \<noteq> None"
    and "tt_latestDate (ts_document ts) = [] \<or> pd (tt_latestDate (ts_document ts)) \<noteq> None"
  shows "\<exists>ts'. addFile pd ts f = Inr ts'
     \<and> (tt_latestDate (ts_document ts') = tt_latestDate (ts_document ts)
          \<or> tt_latestDate (ts_document ts') = fd_updatedAt f)
     \<and> tt_latestDate (ts_document ts') \<noteq> []
     \<and> pd (tt_latestDate (ts_document ts')) \<noteq> None
     \<and> notLater pd (fd_updatedAt f) (tt_latestDate (ts_document ts'))
     \<and> (tt_latestDate (ts_document ts) \<noteq> [] \<longrightarrow>
          notLater pd (tt_latestDate (ts_document ts)) (tt_latestDate (ts_document ts')))"
proof -
  let ?ld = "tt_latestDate (ts_document ts)"
  let ?u = "fd_updatedAt f"
  show ?thesis
  proof (cases "?ld = [] \<or> dateGreater pd ?u ?ld")
    case True
    then have "addFile pd ts f = Inr ((setTotal ''document''
          ((ts_document ts)\<lparr>tt_size := js_add (tt_size (ts_document ts)) (fd_size f), tt_latestDate := ?u\<rparr>) ts)
          \<lparr>ts_used := js_add (ts_used ts) (fd_size f)\<rparr>)"
      using assms(1) by (auto simp add: addFile_def getTotal_def Let_def truthy_str_def)
    with True assms(2,3) show ?thesis
      by (auto simp add: setTotal_def notLater_refl dateGreater_notLater)
  next
    case False
    then have "addFile pd ts f = Inr ((setTotal ''document''
          ((ts_document ts)\<lparr>tt_size := js_add (tt_size (ts_document ts)) (fd_size f)\<rparr>) ts)
          \<lparr>ts_used := js_add (ts_used ts) (fd_size f)\<rparr>)"
      using assms(1) by (auto simp add: addFile_def getTotal_def Let_def truthy_str_def)
    moreover from False assms(3,4) have "notLater pd ?u ?ld" "notLater pd ?ld ?ld"
      by (auto intro: not_dateGreater_notLater notLater_refl)
    ultimately show ?thesis using False assms(4)
      by (auto simp add: setTotal_def)
  qed
qed

lemma addFiles_latest:
  assumes "\<forall>f\<in>set fs. fd_type f = ''document'' \<and> fd_updatedAt f \<noteq> [] \<and> pd (fd_updatedAt f) \<noteq> None"
    and "tt_latestDate (ts_document ts) = [] \<or> pd (tt_latestDate (ts_document ts)) \<noteq> None"
  shows "\<exists>ts'. addFiles pd ts fs = Inr ts'
     \<and> (tt_latestDate (ts_document ts') = tt_latestDate (ts_document ts)
          \<or> tt_latestDate (ts_document ts') \<in> fd_updatedAt ` set fs)
     \<and> (fs \<noteq> [] \<longrightarrow> tt_latestDate (ts_document ts') \<noteq> [])
     \<and> (\<forall>f\<in>set fs. notLater pd (fd_updatedAt f) (tt_latestDate (ts_document ts')))
     \<and> (tt_latestDate (ts_document ts) \<noteq> [] \<longrightarrow>
          tt_latestDate (ts_document ts') \<noteq> []
          \<and> notLater pd (tt_latestDate (ts_document ts)) (tt_latestDate (ts_document ts')))"
  using assms
proof (induction fs arbitrary: ts)
  case Nil
  then show ?case by (auto simp add: notLater_refl)
next
  case (Cons f fs)
  from Cons.prems have f: "fd_type f = ''document''" "fd_updatedAt f \<noteq> []" "pd (fd_updatedAt f) \<noteq> None"
    by simp_all
  from addFile_latest [OF f Cons.prems(2)] obtain ts1 where
    s: "addFile pd ts f = Inr ts1"
      "tt_latestDate (ts_document ts1) = tt_latestDate (ts_document ts)
          \<or> tt_latestDate (ts_document ts1) = fd_updatedAt f"
      "tt_latestDate (ts_document ts1) \<noteq> []"
      "pd (tt_latestDate (ts_document ts1)) \<noteq> None"
      "notLater pd (fd_updatedAt f) (tt_latestDate (ts_document ts1))"
      "tt_latestDate (ts_document ts) \<noteq> [] \<longrightarrow>
          notLater pd (tt_latestDate (ts_document ts)) (tt_latestDate (ts_document ts1))"
    by blast
  from Cons.prems have fs: "\<forall>f\<in>set fs. fd_type f = ''document'' \<and> fd_updatedAt f \<noteq> []
      \<and> pd (fd_updatedAt f) \<noteq> None"
    by simp
  from s(4) have v1: "tt_latestDate (ts_document ts1) = [] \<or> pd (tt_latestDate (ts_document ts1)) \<noteq> None"
    by simp
  from Cons.IH [OF fs v1] s(3) obtain ts' where
    r: "addFiles pd ts1 fs = Inr ts'"
      "tt_latestDate (ts_document ts') = tt_latestDate (ts_document ts1)
          \<or> tt_latestDate (ts_document ts') \<in> fd_updatedAt ` set fs"
      "\<forall>f\<in>set fs. notLater pd (fd_updatedAt f) (tt_latestDate (ts_document ts'))"
      "tt_latestDate (ts_document ts') \<noteq> []"
      "notLater pd (tt_latestDate (ts_document ts1)) (tt_latestDate (ts_document ts'))"
    by blast
  have a: "addFiles pd ts (f # fs) = Inr ts'" using s(1) r(1) by simp
  have b: "tt_latestDate (ts_document ts') = tt_latestDate (ts_document ts)
          \<or> tt_latestDate (ts_document ts') \<in> fd_updatedAt ` set (f # fs)"
    using s(2) r(2) by auto
  have c: "notLater pd (fd_updatedAt f) (tt_latestDate (ts_document ts'))"
    using s(5) r(5) by (rule notLater_trans)
  have d: "tt_latestDate (ts_document ts) \<noteq> [] \<longrightarrow>
          notLater pd (tt_latestDate (ts_document ts)) (tt_latestDate (ts_document ts'))"
    using s(6) r(5) by (blast intro: notLater_trans)
  from a b c d r(3,4) show ?case by simp
qed

text \<open>C3: when the file query returns three documents of 10, 20 and 30 bytes (in any order),
  all of type \<^verbatim>\<open>document\<close> and with valid timestamps, the \<^verbatim>\<open>document\<close> total has
  size 60 and its \<^verbatim>\<open>latestDate\<close> is the \<^verbatim>\<open>$updatedAt\<close> of a file than which none of the
  three is later.\<close>

theorem getTotalSpaceUsed_three_documents:
  assumes "tb_createSessionClient be = Inr c"
    and "fst (getCurrentUser (tb_session be)) = Inr (Found currentUser)"
    and "tb_listFiles be [QEqual ''owner'' (Multi [user_id currentUser])] = Inr files"
    and "mset (map fd_size (documents files)) = {#10, 20, 30#}"
    and "\<forall>f\<in>set (documents files).
           fd_type f = ''document'' \<and> fd_updatedAt f \<noteq> [] \<and> pd (fd_updatedAt f) \<noteq> None"
  shows "\<exists>ts. getTotalSpaceUsed pd be = Inr ts
     \<and> tt_size (ts_document ts) = 60
     \<and> (\<exists>f\<in>set (documents files).
           tt_latestDate (ts_document ts) = fd_updatedAt f
           \<and> (\<forall>g\<in>set (documents files). notLater pd (fd_updatedAt g) (fd_updatedAt f)))"
proof -
  let ?fs = "documents files"
  have known: "\<forall>f\<in>set ?fs. fd_type f \<in> set fileTypes"
    using assms(5) by (simp add: fileTypes_def)
  have "sum_list (map fd_size ?fs) = sum_mset (mset (map fd_size ?fs))"
    by (rule sum_mset_sum_list [symmetric])
  also have "\<dots> = 60" unfolding assms(4) by simp
  finally have sum: "sum_list (map fd_size ?fs) = 60" .
  have ne: "?fs \<noteq> []" using assms(4) by auto
  have alldoc: "filter (\<lambda>f. fd_type f = ''document'') ?fs = ?fs"
    using assms(5) by (simp add: filter_id_conv)
  have "set (map fd_size ?fs) = set_mset (mset (map fd_size ?fs))" by simp
  also have "\<dots> = {10, 20, 30}" unfolding assms(4) by auto
  finally have "\<forall>f\<in>set ?fs. fd_size f \<in> {10, 20, 30}" by auto
  then have nn: "\<forall>f\<in>set ?fs. 0 \<le> fd_size f" by auto
  from nn have eq: "map (\<lambda>f. \<bar>fd_size f\<bar>) ?fs = map fd_size ?fs" by simp
  have bd: "0 + sum_list (map (\<lambda>f. \<bar>fd_size f\<bar>) ?fs) \<le> exactBound"
    unfolding eq sum by (simp add: exactBound_def)
  from addFiles_sizes [OF known within_initial bd, of pd] obtain ts where
    r: "addFiles pd initialTotalSpace ?fs = Inr ts"
      "tt_size (ts_document ts) = tt_size (ts_document initialTotalSpace) + typeSize ''document'' ?fs"
    by blast
  have init: "tt_latestDate (ts_document initialTotalSpace) = []"
    by (simp add: initialTotalSpace_def emptyTotal_def)
  then have "tt_latestDate (ts_document initialTotalSpace) = []
      \<or> pd (tt_latestDate (ts_document initialTotalSpace)) \<noteq> None" by simp
  from addFiles_latest [OF assms(5) this] r(1) init ne have
    l: "tt_latestDate (ts_document ts) \<in> fd_updatedAt ` set ?fs"
      "\<forall>f\<in>set ?fs. notLater pd (fd_updatedAt f) (tt_latestDate (ts_document ts))"
    by auto
  have "tt_size (ts_document ts) = 60"
    using r(2) sum alldoc by (simp add: typeSize_def initialTotalSpace_def emptyTotal_def)
  moreover note getTotalSpaceUsed_addFiles [OF assms(1-3) r(1)]
  ultimately show ?thesis using l by auto
qed

text \<open>C3 at the three example documents.\<close>

theorem getTotalSpaceUsed_three_documents_witness:
  "(\<exists>ts. getTotalSpaceUsed ex_parseDate (ex_totals ex_files) = Inr ts
     \<and> tt_size (ts_document ts) = 60
     \<and> tt_latestDate (ts_document ts) = ''2024-01-03'')"
proof -
  have g: "fst (getCurrentUser (tb_session (ex_totals ex_files))) = Inr (Found ex_user)"
    by (simp add: ex_totals_def ex_session_def getCurrentUser_def currentUserBody_def
        parseStringify_def)
  have l: "tb_listFiles (ex_totals ex_files) [QEqual ''owner'' (Multi [user_id ex_user])]
         = Inr \<lparr>total = 3, documents = ex_files\<rparr>"
    by (simp add: ex_totals_def ex_files_def)
  have m: "mset (map fd_size (documents \<lparr>total = 3, documents = ex_files\<rparr>)) = {#10, 20, 30#}"
    by (simp add: ex_files_def)
  have v: "\<forall>f\<in>set (documents \<lparr>total = 3, documents = ex_files\<rparr>).
           fd_type f = ''document'' \<and> fd_updatedAt f \<noteq> [] \<and> ex_parseDate (fd_updatedAt f) \<noteq> None"
    by (simp add: ex_files_def ex_parseDate_def)
  have c: "tb_createSessionClient (ex_totals ex_files) = Inr ()"
    by (simp add: ex_totals_def)
  from getTotalSpaceUsed_three_documents [OF c g l m v] obtain ts where
    r: "getTotalSpaceUsed ex_parseDate (ex_totals ex_files) = Inr ts"
      "tt_size (ts_document ts) = 60"
      "\<exists>f\<in>set ex_files. tt_latestDate (ts_document ts) = fd_updatedAt f
           \<and> (\<forall>g\<in>set ex_files. notLater ex_parseDate (fd_updatedAt g) (fd_updatedAt f))"
    by auto
  from r(3) have "tt_latestDate (ts_document ts) = ''2024-01-03''"
    by (auto simp add: ex_files_def notLater_def ex_parseDate_def)
  with r(1,2) show ?thesis by blast
qed

section \<open>Properties of the upload payload\<close>

lemma set_field_keys:
  "map fst (set_field k v d) = (if k \<in> set (map fst d) then map fst d else map fst d @ [k])"
  by (induction d) auto

lemma pickKey_first:
  "pickKey K cs = (case filter (\<lambda>k. k \<in> set K) cs of [] \<Rightarrow> None | k # ks \<Rightarrow> Some k)"
  by (induction cs) auto

lemma assignIf_keys:
  assumes "k \<noteq> []" and "k \<notin> set (map fst d)"
  shows "map fst (assignIf K k v d) = map fst d @ filter (\<lambda>x. x \<in> set K) [k]"
  using assms by (simp add: assignIf_def truthy_opt_def truthy_str_def set_field_keys)

lemma assignPicked_keys:
  assumes "[] \<notin> set cs" and "set cs \<inter> set (map fst d) = {}"
  shows "map fst (assignPicked (pickKey K cs) v d)
           = map fst d @ take 1 (filter (\<lambda>x. x \<in> set K) cs)"
proof (cases "filter (\<lambda>x. x \<in> set K) cs")
  case Nil
  then show ?thesis by (simp add: assignPicked_def pickKey_first)
next
  case (Cons k ks)
  then have "k \<in> set (filter (\<lambda>x. x \<in> set K) cs)" by simp
  then have "k \<in> set cs" by simp
  with assms have "k \<noteq> []" "k \<notin> set (map fst d)" by auto
  with Cons show ?thesis
    by (simp add: assignPicked_def pickKey_first truthy_str_def set_field_keys)
qed

lemma fileDocument_keys:
  "map fst (fileDocument u as bucketFile ownerId accountId)
     = filter (\<lambda>k. k \<in> set (existingKeys as)) plainKeys
       @ take 1 (filter (\<lambda>k. k \<in> set (existingKeys as)) accountCandidates)
       @ take 1 (filter (\<lambda>k. k \<in> set (existingKeys as)) bucketFileCandidates)
       @ filter (\<lambda>k. k \<in> set (existingKeys as)) [''users'']"
proof -
  let ?K = "existingKeys as"
  let ?P = "\<lambda>k. k \<in> set ?K"
  define d1 where "d1 = assignIf ?K ''name'' (JStr (bf_name bucketFile)) []"
  define d2 where "d2 = assignIf ?K ''url'' (JStr (constructFileUrl u (bf_id bucketFile))) d1"
  define d3 where "d3 = assignIf ?K ''type'' (JStr (getFileType_type u (bf_name bucketFile))) d2"
  define d4 where "d4 = assignIf ?K ''extension'' (JStr (getFileType_extension u (bf_name bucketFile))) d3"
  define d5 where "d5 = assignIf ?K ''size'' (JNum (bf_sizeOriginal bucketFile)) d4"
  define d6 where "d6 = assignIf ?K ''owner'' (JStr ownerId) d5"
  define d7 where "d7 = assignPicked (pickKey ?K accountCandidates) (JStr accountId) d6"
  define d8 where "d8 = assignPicked (pickKey ?K bucketFileCandidates) (JStr (bf_id bucketFile)) d7"
  define d9 where "d9 = assignIf ?K ''users'' (JArr []) d8"
  have fd: "fileDocument u as bucketFile ownerId accountId = d9"
    by (simp add: fileDocument_def Let_def d1_def d2_def d3_def d4_def d5_def d6_def d7_def
        d8_def d9_def)
  have k1: "map fst d1 = filter ?P [''name'']"
    unfolding d1_def by (subst assignIf_keys) simp_all
  have k2: "map fst d2 = filter ?P [''name''] @ filter ?P [''url'']"
    unfolding d2_def by (subst assignIf_keys) (simp_all add: k1)
  have k3: "map fst d3 = filter ?P [''name'', ''url''] @ filter ?P [''type'']"
    unfolding d3_def by (subst assignIf_keys) (simp_all add: k2)
  have k4: "map fst d4 = filter ?P [''name'', ''url'', ''type''] @ filter ?P [''extension'']"
    unfolding d4_def by (subst assignIf_keys) (simp_all add: k3)
  have k5: "map fst d5 = filter ?P [''name'', ''url'', ''type'', ''extension''] @ filter ?P [''size'']"
    unfolding d5_def by (subst assignIf_keys) (simp_all add: k4)
  have k6: "map fst d6 = filter ?P plainKeys"
    unfolding d6_def plainKeys_def by (subst assignIf_keys) (simp_all add: k5)
  have s6: "set (map fst d6) \<subseteq> set plainKeys"
    unfolding k6 by auto
  have "set accountCandidates \<inter> set plainKeys = {}"
    by (simp add: accountCandidates_def plainKeys_def)
  with s6 have "set accountCandidates \<inter> set (map fst d6) = {}" by blast
  moreover have "[] \<notin> set accountCandidates" by (simp add: accountCandidates_def)
  ultimately have k7: "map fst d7 = filter ?P plainKeys @ take 1 (filter ?P accountCandidates)"
    unfolding d7_def by (simp add: assignPicked_keys k6)
  have s7: "set (map fst d7) \<subseteq> set plainKeys \<union> set accountCandidates"
    unfolding k7 by (auto dest: in_set_takeD)
  have "set bucketFileCandidates \<inter> (set plainKeys \<union> set accountCandidates) = {}"
    by (simp add: accountCandidates_def plainKeys_def bucketFileCandidates_def)
  with s7 have "set bucketFileCandidates \<inter> set (map fst d7) = {}" by blast
  moreover have "[] \<notin> set bucketFileCandidates" by (simp add: bucketFileCandidates_def)
  ultimately have k8: "map fst d8 = filter ?P plainKeys @ take 1 (filter ?P accountCandidates)
       @ take 1 (filter ?P bucketFileCandidates)"
    unfolding d8_def by (simp add: assignPicked_keys k7)
  have s8: "set (map fst d8) \<subseteq> set plainKeys \<union> set accountCandidates \<union> set bucketFileCandidates"
    unfolding k8 by (auto dest: in_set_takeD)
  have "''users'' \<notin> set plainKeys \<union> set accountCandidates \<union> set bucketFileCandidates"
    by (simp add: accountCandidates_def plainKeys_def bucketFileCandidates_def)
  with s8 have "''users'' \<notin> set (map fst d8)" by blast
  then have "map fst d9 = map fst d8 @ filter ?P [''users'']"
    unfolding d9_def by (subst assignIf_keys) simp_all
  with k8 fd show ?thesis by simp
qed

lemma existingKeys_listed:
  "set (existingKeys as) \<subseteq> {k. \<exists>x\<in>set as. attr_key x = Some k \<or> attr_id x = Some k}"
proof
  fix k
  assume "k \<in> set (existingKeys as)"
  then obtain x where x: "x \<in> set as" and k: "keyOf x = Some k"
    by (auto simp add: existingKeys_def truthy_opt_def split: option.splits)
  from k have "attr_key x = Some k \<or> attr_id x = Some k"
    by (auto simp add: keyOf_def split: option.splits)
  with x show "k \<in> {k. \<exists>x\<in>set as. attr_key x = Some k \<or> attr_id x = Some k}"
    by blast
qed

lemma filter_take_all:
  "\<forall>x\<in>set cs. Q x \<Longrightarrow> filter Q (take n (filter P cs)) = take n (filter P cs)"
  by (auto simp add: filter_id_conv dest: in_set_takeD)

lemma filter_take_none:
  "\<forall>x\<in>set cs. \<not> Q x \<Longrightarrow> filter Q (take n (filter P cs)) = []"
  by (auto simp add: filter_empty_conv dest: in_set_takeD)

lemma filter_filter_none:
  "\<forall>x\<in>set cs. \<not> Q x \<Longrightarrow> filter Q (filter P cs) = []"
  by (auto simp add: filter_empty_conv)

text \<open>C10: every key of the payload is an existing key, and every existing key is the
  \<^verbatim>\<open>key\<close> or the \<^verbatim>\<open>$id\<close> of a listed attribute; no key is written twice; of the
  spellings of the account id the payload holds the first one, in candidate order, that
  exists, and no other, and likewise of the spellings of the bucket file reference.\<close>

theorem fileDocument_only_existing_keys:
  "set (map fst (fileDocument u as bucketFile ownerId accountId)) \<subseteq> set (existingKeys as)
   \<and> set (existingKeys as) \<subseteq> {k. \<exists>x\<in>set as. attr_key x = Some k \<or> attr_id x = Some k}
   \<and> distinct (map fst (fileDocument u as bucketFile ownerId accountId))
   \<and> filter (\<lambda>k. k \<in> set accountCandidates)
        (map fst (fileDocument u as bucketFile ownerId accountId))
       = take 1 (filter (\<lambda>k. k \<in> set (existingKeys as)) accountCandidates)
   \<and> filter (\<lambda>k. k \<in> set bucketFileCandidates)
        (map fst (fileDocument u as bucketFile ownerId accountId))
       = take 1 (filter (\<lambda>k. k \<in> set (existingKeys as)) bucketFileCandidates)"
proof -
  let ?P = "\<lambda>k. k \<in> set (existingKeys as)"
  let ?A = "take 1 (filter ?P accountCandidates)"
  let ?B = "take 1 (filter ?P bucketFileCandidates)"
  note keys = fileDocument_keys [of u as bucketFile ownerId accountId]
  have sub: "set (map fst (fileDocument u as bucketFile ownerId accountId)) \<subseteq> set (existingKeys as)"
    unfolding keys by (auto dest: in_set_takeD)
  have sA: "set ?A \<subseteq> set accountCandidates" and sB: "set ?B \<subseteq> set bucketFileCandidates"
    by (auto dest: in_set_takeD)
  have disj: "set plainKeys \<inter> set accountCandidates = {}"
      "set plainKeys \<inter> set bucketFileCandidates = {}"
      "set accountCandidates \<inter> set bucketFileCandidates = {}"
      "''users'' \<notin> set plainKeys" "''users'' \<notin> set accountCandidates"
      "''users'' \<notin> set bucketFileCandidates"
    by (simp_all add: plainKeys_def accountCandidates_def bucketFileCandidates_def)
  have dist: "distinct plainKeys" "distinct accountCandidates" "distinct bucketFileCandidates"
    by (simp_all add: plainKeys_def accountCandidates_def bucketFileCandidates_def)
  have dP: "distinct (filter ?P plainKeys)" and dA: "distinct ?A" and dB: "distinct ?B"
    using dist by simp_all
  have sP: "set (filter ?P plainKeys) \<subseteq> set plainKeys" by auto
  have sU: "set (filter ?P [''users'']) \<subseteq> {''users''}" by auto
  have "distinct (filter ?P plainKeys @ ?A @ ?B @ filter ?P [''users''])"
    unfolding distinct_append using dP dA dB sP sA sB sU disj by (simp del: filter.simps) blast
  then have d: "distinct (map fst (fileDocument u as bucketFile ownerId accountId))"
    unfolding keys .
  have a: "filter (\<lambda>k. k \<in> set accountCandidates)
        (map fst (fileDocument u as bucketFile ownerId accountId)) = ?A"
    unfolding keys filter_append
    using disj
    by (subst filter_filter_none, blast, subst filter_take_all, blast,
        subst filter_take_none, blast, subst filter_filter_none) auto
  have b: "filter (\<lambda>k. k \<in> set bucketFileCandidates)
        (map fst (fileDocument u as bucketFile ownerId accountId)) = ?B"
    unfolding keys filter_append
    using disj
    by (subst filter_filter_none, blast, subst filter_take_none, blast,
        subst filter_take_all, blast, subst filter_filter_none) auto
  from sub existingKeys_listed [of as] d a b show ?thesis by blast
qed

text \<open>C10 at a listing with two spellings of the account id, one of them under \<^verbatim>\<open>$id\<close>.\<close>

theorem fileDocument_only_existing_keys_witness:
  "map fst (fileDocument ex_utils ex_attrs ex_bucketFile ''u1'' ''acc1'')
     = [''name'', ''accountId'', ''bucketFile'']
   \<and> filter (\<lambda>k. k \<in> set accountCandidates)
        (map fst (fileDocument ex_utils ex_attrs ex_bucketFile ''u1'' ''acc1'')) = [''accountId'']
   \<and> existingKeys ex_attrs = [''name'', ''accountId'', ''account_id'', ''bucketFile'']"
proof -
  have k: "existingKeys ex_attrs = [''name'', ''accountId'', ''account_id'', ''bucketFile'']"
    by (simp add: existingKeys_def ex_attrs_def keyOf_def truthy_opt_def truthy_str_def)
  have m: "map fst (fileDocument ex_utils ex_attrs ex_bucketFile ''u1'' ''acc1'')
     = [''name'', ''accountId'', ''bucketFile'']"
    by (simp add: fileDocument_def k assignIf_def assignPicked_def truthy_opt_def truthy_str_def
        accountCandidates_def bucketFileCandidates_def)
  from fileDocument_only_existing_keys [of ex_utils ex_attrs ex_bucketFile "''u1''" "''acc1''"]
  have "filter (\<lambda>k. k \<in> set accountCandidates)
        (map fst (fileDocument ex_utils ex_attrs ex_bucketFile ''u1'' ''acc1'')) = [''accountId'']"
    by (simp add: k accountCandidates_def)
  with k m show ?thesis by simp
qed

section \<open>Properties of the listing\<close>

lemma map_of_set_own: "map_of (set_own k v ps) k' = (if k' = k then Some v else map_of ps k')"
  by (induction ps) auto

lemma assignOwner_own: "k \<noteq> protoName \<Longrightarrow> map_of (om_own (assignOwner m k v)) k = Some v"
  by (simp add: assignOwner_def map_of_set_own)

lemma assignOwner_other:
  "k' \<noteq> k \<Longrightarrow> map_of (om_own (assignOwner m k v)) k' = map_of (om_own m) k'"
  by (simp add: assignOwner_def map_of_set_own split: option.split)

lemma assignOwner_proto: "k \<noteq> protoName \<Longrightarrow> om_proto (assignOwner m k v) = om_proto m"
  by (simp add: assignOwner_def)

lemma resolveOwner_trace: "snd (resolveOwner be i m) = snd (resolveOwner be i m')"
  by (simp add: resolveOwner_def split: sum.split)

lemma resolveOwner_other:
  "k \<noteq> i \<Longrightarrow> map_of (om_own (fst (resolveOwner be i m))) k = map_of (om_own m) k"
  by (simp add: resolveOwner_def assignOwner_other split: sum.split)

lemma resolveOwner_proto: "i \<noteq> protoName \<Longrightarrow> om_proto (fst (resolveOwner be i m)) = om_proto m"
  by (simp add: resolveOwner_def assignOwner_proto split: sum.split)

lemma resolveOwner_set:
  "OwnerMapSet i v \<in> set (snd (resolveOwner be i m)) \<Longrightarrow>
     fst (resolveOwner be i m) = assignOwner m i v"
  by (auto simp add: resolveOwner_def split: sum.splits if_splits)

lemma resolveOwner_unset:
  "\<forall>v. OwnerMapSet i v \<notin> set (snd (resolveOwner be i m)) \<Longrightarrow> fst (resolveOwner be i m) = m"
  by (auto simp add: resolveOwner_def split: sum.splits if_splits)

lemma resolveOwner_local:
  assumes "gf_getUser be' i = gf_getUser be i"
    and "gf_listUsers be' [QEqual ''accountId'' (Multi [i]), QLimit 1]
           = gf_listUsers be [QEqual ''accountId'' (Multi [i]), QLimit 1]"
    and "gf_listUsers be' [QEqual ''email'' (Multi [i]), QLimit 1]
           = gf_listUsers be [QEqual ''email'' (Multi [i]), QLimit 1]"
  shows "resolveOwner be' i m = resolveOwner be i m"
  unfolding resolveOwner_def assms ..

lemma resolveOwners_Cons:
  "resolveOwners be (i # ids) m
     = (fst (resolveOwners be ids (fst (resolveOwner be i m))),
        (i, snd (resolveOwner be i m)) # snd (resolveOwners be ids (fst (resolveOwner be i m))))"
  by (simp split: prod.split)

lemma resolveOwners_traces:
  "snd (resolveOwners be ids m) = map (\<lambda>i. (i, snd (resolveOwner be i emptyOwnerMap))) ids"
proof (induction ids arbitrary: m)
  case Nil
  show ?case by simp
next
  case (Cons i ids)
  from Cons [of "fst (resolveOwner be i m)"] resolveOwner_trace [of be i m emptyOwnerMap]
  show ?case unfolding resolveOwners_Cons by simp
qed

lemma resolveOwners_other:
  "k \<notin> set ids \<Longrightarrow> map_of (om_own (fst (resolveOwners be ids m))) k = map_of (om_own m) k"
proof (induction ids arbitrary: m)
  case Nil
  show ?case by simp
next
  case (Cons i ids)
  from Cons.prems have "k \<noteq> i" and "k \<notin> set ids" by simp_all
  from Cons.IH [OF this(2), of "fst (resolveOwner be i m)"] resolveOwner_other [OF this(1), of be m]
  show ?case unfolding resolveOwners_Cons by simp
qed

lemma resolveOwners_proto:
  "protoName \<notin> set ids \<Longrightarrow> om_proto (fst (resolveOwners be ids m)) = om_proto m"
proof (induction ids arbitrary: m)
  case Nil
  show ?case by simp
next
  case (Cons i ids)
  from Cons.prems have "i \<noteq> protoName" and "protoName \<notin> set ids" by auto
  from Cons.IH [OF this(2), of "fst (resolveOwner be i m)"] resolveOwner_proto [OF this(1), of be m]
  show ?case unfolding resolveOwners_Cons by simp
qed

lemma resolveOwners_set:
  assumes "distinct ids" and "i \<in> set ids" and "i \<noteq> protoName"
    and "OwnerMapSet i v \<in> set (snd (resolveOwner be i emptyOwnerMap))"
  shows "map_of (om_own (fst (resolveOwners be ids m))) i = Some v"
  using assms(1,2)
proof (induction ids arbitrary: m)
  case Nil
  then show ?case by simp
next
  case (Cons j ids)
  show ?case
  proof (cases "j = i")
    case True
    with Cons.prems have "i \<notin> set ids" by simp
    from resolveOwners_other [OF this, of be "fst (resolveOwner be i m)"]
    have "map_of (om_own (fst (resolveOwners be (j # ids) m))) i
            = map_of (om_own (fst (resolveOwner be i m))) i"
      unfolding resolveOwners_Cons True by simp
    moreover from assms(4) resolveOwner_trace [of be i m emptyOwnerMap]
    have "OwnerMapSet i v \<in> set (snd (resolveOwner be i m))" by simp
    from resolveOwner_set [OF this] assignOwner_own [OF assms(3), of m v]
    have "map_of (om_own (fst (resolveOwner be i m))) i = Some v" by simp
    ultimately show ?thesis by simp
  next
    case False
    with Cons.prems have "distinct ids" and "i \<in> set ids" by simp_all
    from Cons.IH [OF this, of "fst (resolveOwner be j m)"]
    show ?thesis unfolding resolveOwners_Cons by simp
  qed
qed

lemma resolveOwners_unset:
  assumes "\<forall>v. OwnerMapSet i v \<notin> set (snd (resolveOwner be i emptyOwnerMap))"
  shows "map_of (om_own (fst (resolveOwners be ids m))) i = map_of (om_own m) i"
proof (induction ids arbitrary: m)
  case Nil
  show ?case by simp
next
  case (Cons j ids)
  have "map_of (om_own (fst (resolveOwner be j m))) i = map_of (om_own m) i"
  proof (cases "j = i")
    case True
    from assms resolveOwner_trace [of be i m emptyOwnerMap]
    have "\<forall>v. OwnerMapSet i v \<notin> set (snd (resolveOwner be i m))" by simp
    from resolveOwner_unset [OF this] True show ?thesis by simp
  next
    case False
    then have "i \<noteq> j" by simp
    from resolveOwner_other [OF this] show ?thesis .
  qed
  with Cons [of "fst (resolveOwner be j m)"] show ?case
    unfolding resolveOwners_Cons by simp
qed

lemma distinct_js_unique: "distinct (js_unique xs)"
  by (simp add: js_unique_def)

lemma set_js_unique: "set (js_unique xs) = set xs"
  by (simp add: js_unique_def)

lemma distinct_ownerIds: "distinct (ownerIds files)"
  by (simp add: ownerIds_def distinct_js_unique)

lemma collectOwnerId_Some:
  "collectOwnerId g = Some j \<longleftrightarrow>
     lf_owner g = Some (OwnerString j) \<or> (\<exists>rest. lf_owner g = Some (OwnerObject (Some j) rest))"
  by (auto simp add: collectOwnerId_def split: option.splits owner_value.splits)

lemma ownerIdValue_collectOwnerId: "ownerIdValue g = collectOwnerId g"
  by (simp add: ownerIdValue_def collectOwnerId_def)

lemma set_ownerIds_collect:
  "set (ownerIds files) = {j. j \<noteq> [] \<and> (\<exists>g\<in>set files. collectOwnerId g = Some j)}"
  by (force simp add: ownerIds_def set_js_unique truthy_opt_def truthy_str_def
      split: option.splits)

lemma set_ownerIds:
  "set (ownerIds files)
     = {j. j \<noteq> [] \<and> (\<exists>g\<in>set files. lf_owner g = Some (OwnerString j)
                          \<or> (\<exists>rest. lf_owner g = Some (OwnerObject (Some j) rest)))}"
  unfolding set_ownerIds_collect collectOwnerId_Some ..

lemma map_of_map_key: "i \<in> set ids \<Longrightarrow> map_of (map (\<lambda>j. (j, g j)) ids) i = Some (g i)"
  by (induction ids) auto

lemma getFiles_run:
  assumes "gf_createAdminClient be = Inr c"
    and "fst (getCurrentUser (gf_session be)) = Inr (Found currentUser)"
    and "gf_listFiles be (listingQueries currentUser typesArg searchTextArg sortArg limit)
           = Inr filesResp"
  shows "getFiles be typesArg searchTextArg sortArg limit
           = (Inr \<lparr>total = total filesResp,
                   documents = map (attachOwner (fst (resolvedOwners be (documents filesResp))))
                                 (documents filesResp)\<rparr>,
              map (\<lambda>i. (i, snd (resolveOwner be i emptyOwnerMap)))
                (ownerIds (documents filesResp)))"
proof -
  have "snd (resolvedOwners be (documents filesResp))
          = map (\<lambda>i. (i, snd (resolveOwner be i emptyOwnerMap))) (ownerIds (documents filesResp))"
    unfolding resolvedOwners_def by (rule resolveOwners_traces)
  with assms show ?thesis
    by (auto simp add: getFiles_def withOwners_def Let_def parseStringify_def split: prod.split)
qed

lemma resolveOwner_chain:
  "(\<forall>userDoc. gf_getUser be i = Inr userDoc \<longrightarrow>
       snd (resolveOwner be i m)
         = [GetDocument usersCollection i True, OwnerMapSet i (Some userDoc)])
   \<and> (\<forall>err. gf_getUser be i = Inl err \<longrightarrow>
        (\<forall>err2. gf_listUsers be [QEqual ''accountId'' (Multi [i]), QLimit 1] = Inl err2 \<longrightarrow>
           snd (resolveOwner be i m)
             = [GetDocument usersCollection i False,
                ListDocuments usersCollection [QEqual ''accountId'' (Multi [i]), QLimit 1] False])
      \<and> (\<forall>byAccount. gf_listUsers be [QEqual ''accountId'' (Multi [i]), QLimit 1] = Inr byAccount \<longrightarrow>
           (total byAccount > 0 \<longrightarrow>
              snd (resolveOwner be i m)
                = [GetDocument usersCollection i False,
                   ListDocuments usersCollection [QEqual ''accountId'' (Multi [i]), QLimit 1] True,
                   OwnerMapSet i (js_index (documents byAccount) 0)])
         \<and> (\<not> total byAccount > 0 \<longrightarrow>
              (\<forall>err2. gf_listUsers be [QEqual ''email'' (Multi [i]), QLimit 1] = Inl err2 \<longrightarrow>
                 snd (resolveOwner be i m)
                   = [GetDocument usersCollection i False,
                      ListDocuments usersCollection [QEqual ''accountId'' (Multi [i]), QLimit 1] True,
                      ListDocuments usersCollection [QEqual ''email'' (Multi [i]), QLimit 1] False])
            \<and> (\<forall>byEmail. gf_listUsers be [QEqual ''email'' (Multi [i]), QLimit 1] = Inr byEmail \<longrightarrow>
                 snd (resolveOwner be i m)
                   = [GetDocument usersCollection i False,
                      ListDocuments usersCollection [QEqual ''accountId'' (Multi [i]), QLimit 1] True,
                      ListDocuments usersCollection [QEqual ''email'' (Multi [i]), QLimit 1] True]
                     @ (if total byEmail > 0
                        then [OwnerMapSet i (js_index (documents byEmail) 0)] else [])))))"
  by (simp add: resolveOwner_def)

lemma attachOwner_resolved:
  assumes "collectOwnerId f = Some i" and "i \<noteq> []"
    and "map_of (om_own m) i = Some (Some userDoc)"
  shows "attachOwner m f = \<lparr>sf_owner = Some (JObj userDoc), sf_props = lf_props f\<rparr>"
  using assms
  by (simp add: attachOwner_def ownerIdValue_collectOwnerId truthy_str_def lookupOwner_def
      shownOwner_def)

lemma attachOwner_unresolved:
  assumes "collectOwnerId f = Some i" and "i \<noteq> []"
    and "map_of (om_own m) i = None" and "om_proto m = None"
    and "i \<noteq> protoName" and "i \<notin> set objectPrototypeFunctions"
  shows "attachOwner m f = \<lparr>sf_owner = map_option owner_json (lf_owner f), sf_props = lf_props f\<rparr>"
  using assms
  by (simp add: attachOwner_def ownerIdValue_collectOwnerId truthy_str_def lookupOwner_def
      shownOwner_def inherited_def)

text \<open>C5: once the listing resolved, \<^verbatim>\<open>getFiles\<close> returns a result whatever the owner
  lookups answer. The owner ids it looks up, once each, are the non-empty owner references
  of the listed files: an owner that is a string, or the \<^verbatim>\<open>$id\<close> of an owner that is an
  object. For such a reference the calls are: the document by id, stored when found; when
  that fails, the users whose \<^verbatim>\<open>accountId\<close> equals it (limit 1), the first stored when
  the count is positive; when the count is not, the users whose \<^verbatim>\<open>email\<close> equals it
  (limit 1), the first stored when the count is positive; a failure of either query ends
  the chain with nothing stored. A file whose reference got a document stored is returned
  with that document as owner; one with nothing stored is returned with its owner as listed,
  provided the reference is not the name of a function every object inherits and no
  reference is \<^verbatim>\<open>__proto__\<close>. The calls made for a reference stay the same when the
  answers to the lookups of other references change.\<close>

theorem getFiles_owner_resolution:
  assumes "gf_createAdminClient be = Inr c"
    and "fst (getCurrentUser (gf_session be)) = Inr (Found currentUser)"
    and "gf_listFiles be (listingQueries currentUser typesArg searchTextArg sortArg limit)
           = Inr filesResp"
    and "f \<in> set (documents filesResp)"
    and "lf_owner f = Some (OwnerString i)
         \<or> (\<exists>rest. lf_owner f = Some (OwnerObject (Some i) rest))"
    and "i \<noteq> []"
  shows "\<exists>out trs tr.
       getFiles be typesArg searchTextArg sortArg limit = (Inr out, trs)
     \<and> distinct (map fst trs)
     \<and> set (map fst trs)
         = {j. j \<noteq> [] \<and> (\<exists>g\<in>set (documents filesResp). lf_owner g = Some (OwnerString j)
                              \<or> (\<exists>rest. lf_owner g = Some (OwnerObject (Some j) rest)))}
     \<and> map_of trs i = Some tr
     \<and> (\<forall>userDoc. gf_getUser be i = Inr userDoc \<longrightarrow>
           tr = [GetDocument usersCollection i True, OwnerMapSet i (Some userDoc)])
     \<and> (\<forall>err. gf_getUser be i = Inl err \<longrightarrow>
          (\<forall>err2. gf_listUsers be [QEqual ''accountId'' (Multi [i]), QLimit 1] = Inl err2 \<longrightarrow>
             tr = [GetDocument usersCollection i False,
                   ListDocuments usersCollection [QEqual ''accountId'' (Multi [i]), QLimit 1] False])
        \<and> (\<forall>byAccount. gf_listUsers be [QEqual ''accountId'' (Multi [i]), QLimit 1] = Inr byAccount \<longrightarrow>
             (total byAccount > 0 \<longrightarrow>
                tr = [GetDocument usersCollection i False,
                      ListDocuments usersCollection [QEqual ''accountId'' (Multi [i]), QLimit 1] True,
                      OwnerMapSet i (js_index (documents byAccount) 0)])
           \<and> (\<not> total byAccount > 0 \<longrightarrow>
                (\<forall>err2. gf_listUsers be [QEqual ''email'' (Multi [i]), QLimit 1] = Inl err2 \<longrightarrow>
                   tr = [GetDocument usersCollection i False,
                         ListDocuments usersCollection [QEqual ''accountId'' (Multi [i]), QLimit 1] True,
                         ListDocuments usersCollection [QEqual ''email'' (Multi [i]), QLimit 1] False])
              \<and> (\<forall>byEmail. gf_listUsers be [QEqual ''email'' (Multi [i]), QLimit 1] = Inr byEmail \<longrightarrow>
                   tr = [GetDocument usersCollection i False,
                         ListDocuments usersCollection [QEqual ''accountId'' (Multi [i]), QLimit 1] True,
                         ListDocuments usersCollection [QEqual ''email'' (Multi [i]), QLimit 1] True]
                        @ (if total byEmail > 0
                           then [OwnerMapSet i (js_index (documents byEmail) 0)] else [])))))
     \<and> (\<forall>userDoc. OwnerMapSet i (Some userDoc) \<in> set tr \<and> i \<noteq> protoName \<longrightarrow>
           \<lparr>sf_owner = Some (JObj userDoc), sf_props = lf_props f\<rparr> \<in> set (documents out))
     \<and> ((\<forall>v. OwnerMapSet i v \<notin> set tr) \<and> i \<notin> set objectPrototypeFunctions
          \<and> protoName \<notin> set (map fst trs) \<longrightarrow>
           \<lparr>sf_owner = map_option owner_json (lf_owner f), sf_props = lf_props f\<rparr>
             \<in> set (documents out))
     \<and> (\<forall>getUser listUsers.
           getUser i = gf_getUser be i
         \<and> listUsers [QEqual ''accountId'' (Multi [i]), QLimit 1]
             = gf_listUsers be [QEqual ''accountId'' (Multi [i]), QLimit 1]
         \<and> listUsers [QEqual ''email'' (Multi [i]), QLimit 1]
             = gf_listUsers be [QEqual ''email'' (Multi [i]), QLimit 1] \<longrightarrow>
           (\<exists>out' trs'.
              getFiles (be\<lparr>gf_getUser := getUser, gf_listUsers := listUsers\<rparr>)
                typesArg searchTextArg sortArg limit = (Inr out', trs')
            \<and> map_of trs' i = Some tr))"
proof -
  define files where "files = documents filesResp"
  define m where "m = fst (resolvedOwners be files)"
  define run where "run = (\<lambda>j. (j, snd (resolveOwner be j emptyOwnerMap)))"
  define out where "out = \<lparr>total = total filesResp, documents = map (attachOwner m) files\<rparr>"
  define tr where "tr = snd (resolveOwner be i emptyOwnerMap)"
  have g: "getFiles be typesArg searchTextArg sortArg limit = (Inr out, map run (ownerIds files))"
    unfolding out_def m_def run_def files_def by (rule getFiles_run [OF assms(1-3)])
  have ids: "map fst (map run (ownerIds files)) = ownerIds files"
    by (simp add: run_def comp_def)
  from assms(5) have co: "collectOwnerId f = Some i" by (simp add: collectOwnerId_Some)
  from assms(4,5,6) have i: "i \<in> set (ownerIds files)"
    unfolding set_ownerIds files_def by blast
  from assms(4) have fm: "attachOwner m f \<in> set (documents out)"
    by (simp add: out_def files_def)
  have d: "distinct (map fst (map run (ownerIds files)))"
    unfolding ids by (rule distinct_ownerIds)
  have s: "set (map fst (map run (ownerIds files)))
         = {j. j \<noteq> [] \<and> (\<exists>g\<in>set (documents filesResp). lf_owner g = Some (OwnerString j)
                              \<or> (\<exists>rest. lf_owner g = Some (OwnerObject (Some j) rest)))}"
    unfolding ids unfolding files_def by (rule set_ownerIds)
  have t: "map_of (map run (ownerIds files)) i = Some tr"
    unfolding run_def tr_def by (rule map_of_map_key [OF i])
  note chain = resolveOwner_chain [of be i emptyOwnerMap, folded tr_def]
  have res: "\<lparr>sf_owner = Some (JObj userDoc), sf_props = lf_props f\<rparr> \<in> set (documents out)"
    if "OwnerMapSet i (Some userDoc) \<in> set tr \<and> i \<noteq> protoName" for userDoc
  proof -
    from that have a: "OwnerMapSet i (Some userDoc) \<in> set (snd (resolveOwner be i emptyOwnerMap))"
      and b: "i \<noteq> protoName" by (simp_all add: tr_def)
    from resolveOwners_set [OF distinct_ownerIds i b a, of emptyOwnerMap]
    have "map_of (om_own m) i = Some (Some userDoc)"
      by (simp add: m_def resolvedOwners_def)
    from attachOwner_resolved [OF co assms(6) this] fm show ?thesis by simp
  qed
  have unres: "\<lparr>sf_owner = map_option owner_json (lf_owner f), sf_props = lf_props f\<rparr>
             \<in> set (documents out)"
    if "(\<forall>v. OwnerMapSet i v \<notin> set tr) \<and> i \<notin> set objectPrototypeFunctions
          \<and> protoName \<notin> set (map fst (map run (ownerIds files)))"
  proof -
    from that have a: "\<forall>v. OwnerMapSet i v \<notin> set (snd (resolveOwner be i emptyOwnerMap))"
      and b: "i \<notin> set objectPrototypeFunctions" and p: "protoName \<notin> set (ownerIds files)"
      unfolding ids by (simp_all add: tr_def)
    from p i have ne: "i \<noteq> protoName" by auto
    from resolveOwners_unset [OF a, of "ownerIds files" emptyOwnerMap]
    have own: "map_of (om_own m) i = None"
      by (simp add: m_def resolvedOwners_def emptyOwnerMap_def)
    from resolveOwners_proto [OF p, of be emptyOwnerMap]
    have pr: "om_proto m = None"
      by (simp add: m_def resolvedOwners_def emptyOwnerMap_def)
    from attachOwner_unresolved [OF co assms(6) own pr ne b] fm show ?thesis by simp
  qed
  have loc: "\<exists>out' trs'.
              getFiles (be\<lparr>gf_getUser := getUser, gf_listUsers := listUsers\<rparr>)
                typesArg searchTextArg sortArg limit = (Inr out', trs')
            \<and> map_of trs' i = Some tr"
    if "getUser i = gf_getUser be i
         \<and> listUsers [QEqual ''accountId'' (Multi [i]), QLimit 1]
             = gf_listUsers be [QEqual ''accountId'' (Multi [i]), QLimit 1]
         \<and> listUsers [QEqual ''email'' (Multi [i]), QLimit 1]
             = gf_listUsers be [QEqual ''email'' (Multi [i]), QLimit 1]"
    for getUser listUsers
  proof -
    define be' :: files_backend where "be' = be\<lparr>gf_getUser := getUser, gf_listUsers := listUsers\<rparr>"
    have a: "gf_createAdminClient be' = Inr c"
      "fst (getCurrentUser (gf_session be')) = Inr (Found currentUser)"
      "gf_listFiles be' (listingQueries currentUser typesArg searchTextArg sortArg limit)
           = Inr filesResp"
      using assms(1-3) by (simp_all add: be'_def)
    from that have l: "gf_getUser be' i = gf_getUser be i"
      "gf_listUsers be' [QEqual ''accountId'' (Multi [i]), QLimit 1]
             = gf_listUsers be [QEqual ''accountId'' (Multi [i]), QLimit 1]"
      "gf_listUsers be' [QEqual ''email'' (Multi [i]), QLimit 1]
             = gf_listUsers be [QEqual ''email'' (Multi [i]), QLimit 1]"
      by (simp_all add: be'_def)
    from resolveOwner_local [OF l, of emptyOwnerMap]
    have "snd (resolveOwner be' i emptyOwnerMap) = tr" by (simp add: tr_def)
    with map_of_map_key [OF i, of "\<lambda>j. snd (resolveOwner be' j emptyOwnerMap)"]
    have "map_of (map (\<lambda>j. (j, snd (resolveOwner be' j emptyOwnerMap))) (ownerIds files)) i = Some tr"
      by simp
    with getFiles_run [OF a] show ?thesis
      unfolding be'_def files_def by blast
  qed
  have r: "\<forall>userDoc. OwnerMapSet i (Some userDoc) \<in> set tr \<and> i \<noteq> protoName \<longrightarrow>
           \<lparr>sf_owner = Some (JObj userDoc), sf_props = lf_props f\<rparr> \<in> set (documents out)"
    using res by (intro allI impI)
  have u: "(\<forall>v. OwnerMapSet i v \<notin> set tr) \<and> i \<notin> set objectPrototypeFunctions
          \<and> protoName \<notin> set (map fst (map run (ownerIds files))) \<longrightarrow>
           \<lparr>sf_owner = map_option owner_json (lf_owner f), sf_props = lf_props f\<rparr>
             \<in> set (documents out)"
    using unres by (intro impI)
  have l: "\<forall>getUser listUsers.
           getUser i = gf_getUser be i
         \<and> listUsers [QEqual ''accountId'' (Multi [i]), QLimit 1]
             = gf_listUsers be [QEqual ''accountId'' (Multi [i]), QLimit 1]
         \<and> listUsers [QEqual ''email'' (Multi [i]), QLimit 1]
             = gf_listUsers be [QEqual ''email'' (Multi [i]), QLimit 1] \<longrightarrow>
           (\<exists>out' trs'.
              getFiles (be\<lparr>gf_getUser := getUser, gf_listUsers := listUsers\<rparr>)
                typesArg searchTextArg sortArg limit = (Inr out', trs')
            \<and> map_of trs' i = Some tr)"
    using loc by (intro allI impI)
  show ?thesis
    apply (rule exI [of _ out])
    apply (rule exI [of _ "map run (ownerIds files)"])
    apply (rule exI [of _ tr])
    apply (rule conjI [OF g])
    apply (rule conjI [OF d])
    apply (rule conjI [OF s])
    apply (rule conjI [OF t])
    apply (rule conjI [OF conjunct1 [OF chain]])
    apply (rule conjI [OF conjunct2 [OF chain]])
    apply (rule conjI [OF r])
    apply (rule conjI [OF u])
    apply (rule l)
    done
qed

lemma ex_getFiles_hyps:
  "gf_createAdminClient ex_filesBackend = Inr ()"
  "fst (getCurrentUser (gf_session ex_filesBackend)) = Inr (Found ex_user)"
  "gf_listFiles ex_filesBackend (listingQueries ex_user None None None None)
     = Inr \<lparr>total = 4, documents = ex_listing\<rparr>"
  by (simp_all add: ex_filesBackend_def ex_session_def getCurrentUser_def currentUserBody_def
      parseStringify_def)

lemma ex_listing_references:
  "{j. j \<noteq> [] \<and> (\<exists>g\<in>set ex_listing. lf_owner g = Some (OwnerString j)
                      \<or> (\<exists>rest. lf_owner g = Some (OwnerObject (Some j) rest)))}
     = {''u1'', ''u2'', ''constructor'', ''u3''}"
  by (auto simp add: ex_listing_def)

text \<open>C5 at the example listing: for the owner whose query by account id fails, and for
  the owner, listed as an object, that is found by email.\<close>

theorem getFiles_owner_resolution_witness:
  "\<exists>out trs. getFiles ex_filesBackend None None None None = (Inr out, trs)
     \<and> distinct (map fst trs)
     \<and> set (map fst trs) = {''u1'', ''u2'', ''constructor'', ''u3''}
     \<and> map_of trs ''u3''
         = Some [GetDocument usersCollection ''u3'' False,
                 ListDocuments usersCollection [QEqual ''accountId'' (Multi [''u3'']), QLimit 1] False]
     \<and> \<lparr>sf_owner = Some (JStr ''u3''), sf_props = [(''name'', JStr ''w'')]\<rparr> \<in> set (documents out)
     \<and> map_of trs ''u2''
         = Some [GetDocument usersCollection ''u2'' False,
                 ListDocuments usersCollection [QEqual ''accountId'' (Multi [''u2'']), QLimit 1] True,
                 ListDocuments usersCollection [QEqual ''email'' (Multi [''u2'']), QLimit 1] True,
                 OwnerMapSet ''u2'' (Some ex_owner2)]
     \<and> \<lparr>sf_owner = Some (JObj ex_owner2), sf_props = [(''name'', JStr ''y'')]\<rparr>
         \<in> set (documents out)"
proof -
  let ?w = "\<lparr>lf_owner = Some (OwnerString ''u3''), lf_props = [(''name'', JStr ''w'')]\<rparr>"
  let ?y = "\<lparr>lf_owner = Some (OwnerObject (Some ''u2'') []), lf_props = [(''name'', JStr ''y'')]\<rparr>"
  have w: "?w \<in> set (documents \<lparr>total = 4, documents = ex_listing\<rparr>)"
    and y: "?y \<in> set (documents \<lparr>total = 4, documents = ex_listing\<rparr>)"
    by (simp_all add: ex_listing_def)
  have ow: "lf_owner ?w = Some (OwnerString ''u3'')
         \<or> (\<exists>rest. lf_owner ?w = Some (OwnerObject (Some ''u3'') rest))"
    and oy: "lf_owner ?y = Some (OwnerString ''u2'')
         \<or> (\<exists>rest. lf_owner ?y = Some (OwnerObject (Some ''u2'') rest))"
    by simp_all
  have n: "''u3'' \<noteq> []" "''u2'' \<noteq> []" by simp_all
  have refs: "{j. j \<noteq> [] \<and> (\<exists>g\<in>set (documents \<lparr>total = 4, documents = ex_listing\<rparr>).
                    lf_owner g = Some (OwnerString j)
                    \<or> (\<exists>rest. lf_owner g = Some (OwnerObject (Some j) rest)))}
     = {''u1'', ''u2'', ''constructor'', ''u3''}"
    using ex_listing_references by simp
  have g3: "gf_getUser ex_filesBackend ''u3'' = Inl (BackendError ''not found'')"
    and a3: "gf_listUsers ex_filesBackend [QEqual ''accountId'' (Multi [''u3'']), QLimit 1]
               = Inl (BackendError ''unavailable'')"
    and g2: "gf_getUser ex_filesBackend ''u2'' = Inl (BackendError ''not found'')"
    and a2: "gf_listUsers ex_filesBackend [QEqual ''accountId'' (Multi [''u2'']), QLimit 1]
               = Inr \<lparr>total = 0, documents = []\<rparr>"
    and e2: "gf_listUsers ex_filesBackend [QEqual ''email'' (Multi [''u2'']), QLimit 1]
               = Inr \<lparr>total = 1, documents = [ex_owner2]\<rparr>"
    by (simp_all add: ex_filesBackend_def)
  from getFiles_owner_resolution [OF ex_getFiles_hyps w ow n(1), unfolded refs]
  obtain out trs tr where
    r: "getFiles ex_filesBackend None None None None = (Inr out, trs)"
    and d: "distinct (map fst trs)"
    and s: "set (map fst trs) = {''u1'', ''u2'', ''constructor'', ''u3''}"
    and t: "map_of trs ''u3'' = Some tr"
    and c: "\<forall>err. gf_getUser ex_filesBackend ''u3'' = Inl err \<longrightarrow>
          (\<forall>err2. gf_listUsers ex_filesBackend [QEqual ''accountId'' (Multi [''u3'']), QLimit 1]
                     = Inl err2 \<longrightarrow>
             tr = [GetDocument usersCollection ''u3'' False,
                   ListDocuments usersCollection [QEqual ''accountId'' (Multi [''u3'']), QLimit 1] False])
        \<and> (\<forall>byAccount. gf_listUsers ex_filesBackend [QEqual ''accountId'' (Multi [''u3'']), QLimit 1]
                     = Inr byAccount \<longrightarrow>
             (total byAccount > 0 \<longrightarrow>
                tr = [GetDocument usersCollection ''u3'' False,
                      ListDocuments usersCollection [QEqual ''accountId'' (Multi [''u3'']), QLimit 1] True,
                      OwnerMapSet ''u3'' (js_index (documents byAccount) 0)])
           \<and> (\<not> total byAccount > 0 \<longrightarrow>
                (\<forall>err2. gf_listUsers ex_filesBackend [QEqual ''email'' (Multi [''u3'']), QLimit 1]
                     = Inl err2 \<longrightarrow>
                   tr = [GetDocument usersCollection ''u3'' False,
                         ListDocuments usersCollection [QEqual ''accountId'' (Multi [''u3'']), QLimit 1] True,
                         ListDocuments usersCollection [QEqual ''email'' (Multi [''u3'']), QLimit 1] False])
              \<and> (\<forall>byEmail. gf_listUsers ex_filesBackend [QEqual ''email'' (Multi [''u3'']), QLimit 1]
                     = Inr byEmail \<longrightarrow>
                   tr = [GetDocument usersCollection ''u3'' False,
                         ListDocuments usersCollection [QEqual ''accountId'' (Multi [''u3'']), QLimit 1] True,
                         ListDocuments usersCollection [QEqual ''email'' (Multi [''u3'']), QLimit 1] True]
                        @ (if total byEmail > 0
                           then [OwnerMapSet ''u3'' (js_index (documents byEmail) 0)] else []))))"
    and u: "(\<forall>v. OwnerMapSet ''u3'' v \<notin> set tr) \<and> ''u3'' \<notin> set objectPrototypeFunctions
          \<and> protoName \<notin> set (map fst trs) \<longrightarrow>
           \<lparr>sf_owner = map_option owner_json (lf_owner ?w), sf_props = lf_props ?w\<rparr>
             \<in> set (documents out)"
    by (elim exE conjE)
  from c g3 a3 have tr: "tr = [GetDocument usersCollection ''u3'' False,
       ListDocuments usersCollection [QEqual ''accountId'' (Multi [''u3'']), QLimit 1] False]"
    by blast
  have "(\<forall>v. OwnerMapSet ''u3'' v \<notin> set tr) \<and> ''u3'' \<notin> set objectPrototypeFunctions
          \<and> protoName \<notin> set (map fst trs)"
    unfolding tr s by (simp add: objectPrototypeFunctions_def protoName_def)
  with u have shown3: "\<lparr>sf_owner = Some (JStr ''u3''), sf_props = [(''name'', JStr ''w'')]\<rparr>
      \<in> set (documents out)"
    by simp
  from getFiles_owner_resolution [OF ex_getFiles_hyps y oy n(2), unfolded r]
  obtain out2 trs2 tr2 where
    r2: "(Inr out, trs) = (Inr out2 :: error + shown_file document_list, trs2)"
    and t2: "map_of trs2 ''u2'' = Some tr2"
    and c2: "\<forall>err. gf_getUser ex_filesBackend ''u2'' = Inl err \<longrightarrow>
          (\<forall>err2. gf_listUsers ex_filesBackend [QEqual ''accountId'' (Multi [''u2'']), QLimit 1]
                     = Inl err2 \<longrightarrow>
             tr2 = [GetDocument usersCollection ''u2'' False,
                   ListDocuments usersCollection [QEqual ''accountId'' (Multi [''u2'']), QLimit 1] False])
        \<and> (\<forall>byAccount. gf_listUsers ex_filesBackend [QEqual ''accountId'' (Multi [''u2'']), QLimit 1]
                     = Inr byAccount \<longrightarrow>
             (total byAccount > 0 \<longrightarrow>
                tr2 = [GetDocument usersCollection ''u2'' False,
                      ListDocuments usersCollection [QEqual ''accountId'' (Multi [''u2'']), QLimit 1] True,
                      OwnerMapSet ''u2'' (js_index (documents byAccount) 0)])
           \<and> (\<not> total byAccount > 0 \<longrightarrow>
                (\<forall>err2. gf_listUsers ex_filesBackend [QEqual ''email'' (Multi [''u2'']), QLimit 1]
                     = Inl err2 \<longrightarrow>
                   tr2 = [GetDocument usersCollection ''u2'' False,
                         ListDocuments usersCollection [QEqual ''accountId'' (Multi [''u2'']), QLimit 1] True,
                         ListDocuments usersCollection [QEqual ''email'' (Multi [''u2'']), QLimit 1] False])
              \<and> (\<forall>byEmail. gf_listUsers ex_filesBackend [QEqual ''email'' (Multi [''u2'']), QLimit 1]
                     = Inr byEmail \<longrightarrow>
                   tr2 = [GetDocument usersCollection ''u2'' False,
                         ListDocuments usersCollection [QEqual ''accountId'' (Multi [''u2'']), QLimit 1] True,
                         ListDocuments usersCollection [QEqual ''email'' (Multi [''u2'']), QLimit 1] True]
                        @ (if total byEmail > 0
                           then [OwnerMapSet ''u2'' (js_index (documents byEmail) 0)] else []))))"
    and v2: "\<forall>userDoc. OwnerMapSet ''u2'' (Some userDoc) \<in> set tr2 \<and> ''u2'' \<noteq> protoName \<longrightarrow>
           \<lparr>sf_owner = Some (JObj userDoc), sf_props = lf_props ?y\<rparr> \<in> set (documents out2)"
    by (elim exE conjE)
  from r2 have eq: "out2 = out" "trs2 = trs" by simp_all
  from c2 g2 a2 e2
  have tr2: "tr2 = [GetDocument usersCollection ''u2'' False,
       ListDocuments usersCollection [QEqual ''accountId'' (Multi [''u2'']), QLimit 1] True,
       ListDocuments usersCollection [QEqual ''email'' (Multi [''u2'']), QLimit 1] True,
       OwnerMapSet ''u2'' (Some ex_owner2)]"
    by simp
  from v2 [rule_format, of ex_owner2]
  have shown2: "\<lparr>sf_owner = Some (JObj ex_owner2), sf_props = [(''name'', JStr ''y'')]\<rparr>
      \<in> set (documents out)"
    unfolding tr2 eq by (simp add: protoName_def)
  from r d s t [unfolded tr] shown3 t2 [unfolded tr2 eq] shown2 show ?thesis
    by (intro exI [of _ out] exI [of _ trs] conjI)
qed

text \<open>Whatever the owners, \<^verbatim>\<open>getFiles\<close> returns as many files as were listed, in the
  same order, each with its other properties as listed, under the same \<^verbatim>\<open>total\<close>.\<close>

lemma getFiles_other_properties:
  assumes "gf_createAdminClient be = Inr c"
    and "fst (getCurrentUser (gf_session be)) = Inr (Found currentUser)"
    and "gf_listFiles be (listingQueries currentUser typesArg searchTextArg sortArg limit)
           = Inr filesResp"
  shows "\<exists>out. fst (getFiles be typesArg searchTextArg sortArg limit) = Inr out
     \<and> total out = total filesResp
     \<and> map sf_props (documents out) = map lf_props (documents filesResp)"
  unfolding getFiles_run [OF assms]
  by (simp add: attachOwner_def Let_def comp_def)

text \<open>C9 fails on the code: \<^verbatim>\<open>ownerMap\<close> is a plain object, so for an owner id that is
  the name of a function every object inherits, and that no lookup finds, the read
  \<^verbatim>\<open>ownerMap[ownerIdValue]\<close> gives that function, \<^verbatim>\<open>resolvedOwner ?? f.owner\<close> keeps it,
  and the serialised file has no \<^verbatim>\<open>owner\<close> at all. In the example listing the third
  file, listed with the owner \<^verbatim>\<open>constructor\<close>, comes back without its owner, while the
  fourth, whose lookups fail as well, keeps the owner as listed, as the comments in
  \<^verbatim>\<open>getFiles\<close> say of every unresolved owner.\<close>

theorem getFiles_owner_lost:
  "getFiles ex_filesBackend None None None None
     = (Inr \<lparr>total = 4,
             documents =
               [\<lparr>sf_owner = Some (JObj ex_owner), sf_props = [(''name'', JStr ''x'')]\<rparr>,
                \<lparr>sf_owner = Some (JObj ex_owner2), sf_props = [(''name'', JStr ''y'')]\<rparr>,
                \<lparr>sf_owner = None, sf_props = [(''name'', JStr ''z'')]\<rparr>,
                \<lparr>sf_owner = Some (JStr ''u3''), sf_props = [(''name'', JStr ''w'')]\<rparr>]\<rparr>,
        [(''u1'', [GetDocument usersCollection ''u1'' True, OwnerMapSet ''u1'' (Some ex_owner)]),
         (''u2'', [GetDocument usersCollection ''u2'' False,
                   ListDocuments usersCollection [QEqual ''accountId'' (Multi [''u2'']), QLimit 1] True,
                   ListDocuments usersCollection [QEqual ''email'' (Multi [''u2'']), QLimit 1] True,
                   OwnerMapSet ''u2'' (Some ex_owner2)]),
         (''constructor'',
          [GetDocument usersCollection ''constructor'' False,
           ListDocuments usersCollection [QEqual ''accountId'' (Multi [''constructor'']), QLimit 1] True,
           ListDocuments usersCollection [QEqual ''email'' (Multi [''constructor'']), QLimit 1] True]),
         (''u3'', [GetDocument usersCollection ''u3'' False,
                   ListDocuments usersCollection [QEqual ''accountId'' (Multi [''u3'']), QLimit 1] False])])
   \<and> lf_owner (ex_listing ! 2) = Some (OwnerString ''constructor'')"
  by code_simp

end
